theory Spec2Isabelle
  imports Main "HOL-Library.AList"
begin

section \<open>JSON values and the JavaScript operations the code applies to them\<close>

text \<open>
  A parsed JSON document. Numbers are kept as integers; an object is the list of its own
  properties in insertion order.
\<close>

datatype json =
    JNull
  | JBool bool
  | JNum int
  | JStr string
  | JArr "json list"
  | JObj "(string \<times> json) list"

type_synonym props = "(string \<times> json) list"

text \<open>JavaScript truthiness of a JSON value, as tested by \<open>if (v)\<close> and \<open>!v\<close>.\<close>

fun truthy :: "json \<Rightarrow> bool" where
  "truthy JNull = False"
| "truthy (JBool b) = b"
| "truthy (JNum n) = (n \<noteq> 0)"
| "truthy (JStr s) = (s \<noteq> [])"
| "truthy (JArr xs) = True"
| "truthy (JObj ps) = True"

text \<open>\<open>typeof v === 'object'\<close>: true of objects, arrays and \<open>null\<close>.\<close>

fun typeof_object :: "json \<Rightarrow> bool" where
  "typeof_object JNull = True"
| "typeof_object (JArr xs) = True"
| "typeof_object (JObj ps) = True"
| "typeof_object v = False"

text \<open>
  What a property read \<open>obj[k]\<close> can yield on a value that came out of \<open>JSON.parse\<close>:
  nothing, a JSON value, or a member inherited from \<open>Object.prototype\<close>.
\<close>

datatype jsval =
    Undefined
  | Value json
  | ObjectPrototype
  | BuiltinFunction string

fun js_truthy :: "jsval \<Rightarrow> bool" where
  "js_truthy Undefined = False"
| "js_truthy (Value v) = truthy v"
| "js_truthy ObjectPrototype = True"
| "js_truthy (BuiltinFunction f) = True"

datatype exn = Error string | TypeError string | SyntaxError string

fun message :: "exn \<Rightarrow> string" where
  "message (Error m) = m"
| "message (TypeError m) = m"
| "message (SyntaxError m) = m"

text \<open>
  The function-valued members every plain object inherits from \<open>Object.prototype\<close>;
  the accessor \<open>__proto__\<close> is treated separately.
\<close>

definition object_prototype_functions :: "string list" where
  "object_prototype_functions =
     [''constructor'', ''hasOwnProperty'', ''isPrototypeOf'', ''propertyIsEnumerable'',
      ''toLocaleString'', ''toString'', ''valueOf'', ''__defineGetter__'',
      ''__defineSetter__'', ''__lookupGetter__'', ''__lookupSetter__'']"

text \<open>
  \<open>obj[k]\<close> on a plain object: an own property wins (\<open>JSON.parse\<close> creates own
  properties for all keys, \<open>__proto__\<close> included); otherwise the prototype chain is
  consulted, where \<open>__proto__\<close> is a getter returning \<open>Object.prototype\<close> itself.
\<close>

definition get_property :: "props \<Rightarrow> string \<Rightarrow> jsval" where
  "get_property obj k =
     (case map_of obj k of
        Some v \<Rightarrow> Value v
      | None \<Rightarrow>
          if k = ''__proto__'' then ObjectPrototype
          else if k \<in> set object_prototype_functions then BuiltinFunction k
          else Undefined)"

text \<open>
  \<open>obj[k] = v\<close> on a plain object. An own property is updated in place and a new key is
  appended, except that with no own \<open>__proto__\<close> property the assignment runs the
  inherited setter: it changes the prototype of \<open>obj\<close> (when \<open>v\<close> is an object or
  \<open>null\<close>) and creates no own property. The prototype is not recorded because the only
  thing the code does with the object afterwards is \<open>JSON.stringify\<close>, which emits own
  properties only.
\<close>

definition set_property :: "props \<Rightarrow> string \<Rightarrow> json \<Rightarrow> props" where
  "set_property obj k v =
     (if k = ''__proto__'' \<and> map_of obj k = None then obj
      else AList.update k v obj)"

text \<open>
  Operations of the JavaScript runtime that the code calls and that are not part of the
  repository. Property access on receivers that are not plain objects (arrays, primitives,
  \<open>null\<close>) is supplied here as well.
\<close>

record runtime =
  JSON_parse :: "string \<Rightarrow> json option"
  JSON_stringify :: "json \<Rightarrow> string"
  String_of :: "json \<Rightarrow> string"
  exotic_get :: "json \<Rightarrow> string \<Rightarrow> exn + jsval"
  exotic_set :: "json \<Rightarrow> string \<Rightarrow> json \<Rightarrow> exn + json"

definition read_property :: "runtime \<Rightarrow> json \<Rightarrow> string \<Rightarrow> exn + jsval" where
  "read_property rt recv k =
     (case recv of
        JObj obj \<Rightarrow> Inr (get_property obj k)
      | _ \<Rightarrow> exotic_get rt recv k)"

definition assign_property :: "runtime \<Rightarrow> json \<Rightarrow> string \<Rightarrow> json \<Rightarrow> exn + json" where
  "assign_property rt recv k v =
     (case recv of
        JObj obj \<Rightarrow> Inr (JObj (set_property obj k v))
      | _ \<Rightarrow> exotic_set rt recv k v)"

section \<open>The backend key-value store (quickstor-backend/index.js)\<close>

text \<open>
  The state is the file \<open>data.json\<close>: its parsed content (\<open>None\<close> when the file is
  missing or does not parse) and whether \<open>fs.writeFile\<close> succeeds. Serialising with
  \<open>JSON.stringify\<close> and parsing back is taken to return the same JSON value.
\<close>

record data_file =
  content :: "json option"
  writable :: bool

record http_response =
  status :: nat
  payload :: jsval

definition readData :: "data_file \<Rightarrow> json" where
  "readData fs = (case content fs of Some d \<Rightarrow> d | None \<Rightarrow> JObj [])"

definition writeData :: "data_file \<Rightarrow> json \<Rightarrow> exn + data_file" where
  "writeData fs d =
     (if writable fs then Inr (fs\<lparr>content := Some d\<rparr>)
      else Inl (Error ''write failed''))"

definition internal_server_error :: http_response where
  "internal_server_error =
     \<lparr>status = 500, payload = Value (JObj [(''error'', JStr ''Internal Server Error'')])\<rparr>"

definition get_all :: "data_file \<Rightarrow> http_response" where
  "get_all fs = \<lparr>status = 200, payload = Value (readData fs)\<rparr>"

definition post_all :: "data_file \<Rightarrow> json \<Rightarrow> http_response \<times> data_file" where
  "post_all fs newData =
     (if \<not> truthy newData \<or> \<not> typeof_object newData then
        (\<lparr>status = 400, payload = Value (JObj [(''error'', JStr ''Invalid data format'')])\<rparr>, fs)
      else
        (case writeData fs newData of
           Inl e \<Rightarrow> (internal_server_error, fs)
         | Inr fs' \<Rightarrow>
             (\<lparr>status = 200,
               payload = Value (JObj [(''success'', JBool True),
                                      (''message'', JStr ''Full restore completed'')])\<rparr>, fs')))"

definition get_doc :: "runtime \<Rightarrow> data_file \<Rightarrow> string \<Rightarrow> http_response" where
  "get_doc rt fs docPath =
     (let allData = readData fs in
      case read_property rt allData docPath of
        Inl e \<Rightarrow> internal_server_error
      | Inr docData \<Rightarrow>
          if js_truthy docData then \<lparr>status = 200, payload = docData\<rparr>
          else \<lparr>status = 404, payload = Value (JObj [(''error'', JStr ''Document not found'')])\<rparr>)"

definition post_doc :: "runtime \<Rightarrow> data_file \<Rightarrow> string \<Rightarrow> json \<Rightarrow> http_response \<times> data_file" where
  "post_doc rt fs docPath newData =
     (let allData = readData fs in
      case assign_property rt allData docPath newData of
        Inl e \<Rightarrow> (internal_server_error, fs)
      | Inr allData' \<Rightarrow>
          (case writeData fs allData' of
             Inl e \<Rightarrow> (internal_server_error, fs)
           | Inr fs' \<Rightarrow>
               (\<lparr>status = 200,
                 payload = Value (JObj [(''success'', JBool True), (''path'', JStr docPath)])\<rparr>,
                fs')))"

section \<open>Strings\<close>

text \<open>\<open>Array.prototype.join\<close> on a list of strings.\<close>

fun join :: "string \<Rightarrow> string list \<Rightarrow> string" where
  "join sep [] = []"
| "join sep [x] = x"
| "join sep (x # y # ys) = x @ sep @ join sep (y # ys)"

text \<open>\<open>String.prototype.includes\<close>: the second string occurs in the first.\<close>

fun str_includes :: "string \<Rightarrow> string \<Rightarrow> bool" where
  "str_includes [] sub = (sub = [])"
| "str_includes (c # cs) sub = (take (length sub) (c # cs) = sub \<or> str_includes cs sub)"

text \<open>The decimal rendering of a natural number, as in a template literal.\<close>

definition digit :: "nat \<Rightarrow> char" where
  "digit n = ''0123456789'' ! n"

function show_nat :: "nat \<Rightarrow> string" where
  "show_nat n = (if n < 10 then [digit n] else show_nat (n div 10) @ [digit (n mod 10)])"
  by pat_completeness auto
termination
  by (relation "measure id") auto

declare show_nat.simps [simp del]

section \<open>The store adapters (firebase.js of the frontend and of the admin panel)\<close>

text \<open>
  \<open>doc\<close>, \<open>getDoc\<close> and \<open>setDoc\<close> are the same code in both adapters; only
  \<open>BACKEND_URL\<close> differs, so it is an argument. The network is an argument too: what
  \<open>fetch\<close> answers to a request, with the body as \<open>response.json()\<close> reads it
  (\<open>None\<close> when it is not JSON).
\<close>

definition BACKEND_URL_frontend :: string where
  "BACKEND_URL_frontend = ''http://localhost:3000/api/data''"

definition BACKEND_URL_admin :: string where
  "BACKEND_URL_admin = ''/api/data''"

record doc_ref =
  ref_id :: "string option"
  ref_path :: string

definition getKey :: "string list \<Rightarrow> string" where
  "getKey pathSegments = join ''/'' pathSegments"

definition doc :: "string list \<Rightarrow> doc_ref" where
  "doc pathSegments =
     \<lparr>ref_id = (if pathSegments = [] then None else Some (last pathSegments)),
      ref_path = getKey pathSegments\<rparr>"

datatype request = GET string | POST string string

datatype fetch_result = NetworkError | HttpResponse nat "json option"

type_synonym network = "request \<Rightarrow> fetch_result"

definition response_ok :: "nat \<Rightarrow> bool" where
  "response_ok st = (200 \<le> st \<and> st \<le> 299)"

record snapshot =
  snap_exists :: bool
  snap_data :: "json option"
  snap_id :: "string option"

definition missing_snapshot :: "doc_ref \<Rightarrow> snapshot" where
  "missing_snapshot docRef = \<lparr>snap_exists = False, snap_data = None, snap_id = ref_id docRef\<rparr>"

text \<open>The body of the \<open>try\<close> block of \<open>getDoc\<close>.\<close>

definition getDoc_try :: "string \<Rightarrow> network \<Rightarrow> doc_ref \<Rightarrow> exn + snapshot" where
  "getDoc_try url fetch docRef =
     (case fetch (GET (url @ ''/'' @ ref_path docRef)) of
        NetworkError \<Rightarrow> Inl (TypeError ''Failed to fetch'')
      | HttpResponse st body \<Rightarrow>
          if \<not> response_ok st then
            (if st = 404 then Inr (missing_snapshot docRef)
             else Inl (Error ''Backend error''))
          else
            (case body of
               None \<Rightarrow> Inl (SyntaxError ''Unexpected end of JSON input'')
             | Some d \<Rightarrow>
                 Inr \<lparr>snap_exists = True, snap_data = Some d, snap_id = ref_id docRef\<rparr>))"

text \<open>\<open>getDoc\<close>: the \<open>catch\<close> clause turns every exception into the snapshot of a missing document.\<close>

definition getDoc :: "string \<Rightarrow> network \<Rightarrow> doc_ref \<Rightarrow> exn + snapshot" where
  "getDoc url fetch docRef =
     (case getDoc_try url fetch docRef of
        Inl e \<Rightarrow> Inr (missing_snapshot docRef)
      | Inr snap \<Rightarrow> Inr snap)"

text \<open>
  The own enumerable properties that an object spread \<open>{...v}\<close> copies: those of an
  object, the indexed elements of an array, the characters of a string, nothing otherwise.
\<close>

definition spread :: "json \<Rightarrow> props" where
  "spread v =
     (case v of
        JObj ps \<Rightarrow> ps
      | JArr xs \<Rightarrow> zip (map show_nat [0..<length xs]) xs
      | JStr s \<Rightarrow> zip (map show_nat [0..<length s]) (map (\<lambda>c. JStr [c]) s)
      | _ \<Rightarrow> [])"

text \<open>\<open>{...a, ...b}\<close>: the properties of \<open>b\<close> override or extend those of \<open>a\<close>.\<close>

definition merge_props :: "props \<Rightarrow> props \<Rightarrow> props" where
  "merge_props a b = fold (\<lambda>(k, v). AList.update k v) b a"

record set_options =
  merge :: bool

text \<open>
  \<open>setDoc\<close> returns what the promise settles to, with the requests it sent, in order.
\<close>

definition setDoc ::
  "runtime \<Rightarrow> string \<Rightarrow> network \<Rightarrow> doc_ref \<Rightarrow> json \<Rightarrow> set_options option
     \<Rightarrow> (exn + json) \<times> request list" where
  "setDoc rt url fetch docRef data options =
     (let target = url @ ''/'' @ ref_path docRef;
          merging = (case options of None \<Rightarrow> False | Some opts \<Rightarrow> merge opts);
          finalData =
            (if merging then
               (case getDoc url fetch docRef of
                  Inr existingSnap \<Rightarrow>
                    (case snap_data existingSnap of
                       Some old \<Rightarrow>
                         if snap_exists existingSnap
                         then JObj (merge_props (spread old) (spread data))
                         else data
                     | None \<Rightarrow>
                         if snap_exists existingSnap then JObj (spread data) else data)
                | Inl e \<Rightarrow> data)
             else data);
          reads = (if merging then [GET target] else []);
          post = POST target (JSON_stringify rt finalData)
      in case fetch post of
           NetworkError \<Rightarrow> (Inl (TypeError ''Failed to fetch''), reads @ [post])
         | HttpResponse st body \<Rightarrow>
             if \<not> response_ok st then (Inl (Error ''Failed to save to backend''), reads @ [post])
             else
               (case body of
                  None \<Rightarrow> (Inl (SyntaxError ''Unexpected end of JSON input''), reads @ [post])
                | Some answer \<Rightarrow> (Inr answer, reads @ [post])))"

text \<open>
  The watchers. A subscription is run against the events that follow it: the timer fires
  (the network as it is at that moment is part of the event) or the caller unsubscribes.
  A run of \<open>fetchData\<close> is taken as one step. The effects are the callback invocations
  and the timers armed, in order.
\<close>

datatype tick = TimerFires network | Unsubscribe

datatype effect = Callback snapshot | SetTimeout nat | SetInterval nat | ClearInterval

fun callbacks :: "effect list \<Rightarrow> snapshot list" where
  "callbacks [] = []"
| "callbacks (Callback snap # es) = snap # callbacks es"
| "callbacks (e # es) = callbacks es"

text \<open>The values \<open>lastJson\<close> and \<open>currentJson\<close> take in the frontend watcher.\<close>

datatype last_json = JsNull | JsUndefined | JsString string

definition stringify_data :: "runtime \<Rightarrow> json option \<Rightarrow> last_json" where
  "stringify_data rt d =
     (case d of None \<Rightarrow> JsUndefined | Some v \<Rightarrow> JsString (JSON_stringify rt v))"

record watcher =
  isActive :: bool
  lastJson :: last_json

text \<open>Frontend: \<open>fetchData\<close> inside \<open>onSnapshot\<close>.\<close>

definition fetchData_frontend ::
  "runtime \<Rightarrow> doc_ref \<Rightarrow> watcher \<Rightarrow> network \<Rightarrow> watcher \<times> effect list" where
  "fetchData_frontend rt docRef w fetch =
     (if \<not> isActive w then (w, [])
      else
        (case getDoc BACKEND_URL_frontend fetch docRef of
           Inl e \<Rightarrow> (w, [SetTimeout 2000])
         | Inr snap \<Rightarrow>
             (let currentJson = stringify_data rt (snap_data snap) in
              if currentJson \<noteq> lastJson w
              then (w\<lparr>lastJson := currentJson\<rparr>, [Callback snap, SetTimeout 2000])
              else (w, [SetTimeout 2000]))))"

fun polls_frontend :: "runtime \<Rightarrow> doc_ref \<Rightarrow> watcher \<Rightarrow> tick list \<Rightarrow> effect list" where
  "polls_frontend rt docRef w [] = []"
| "polls_frontend rt docRef w (Unsubscribe # ts) =
     polls_frontend rt docRef (w\<lparr>isActive := False\<rparr>) ts"
| "polls_frontend rt docRef w (TimerFires fetch # ts) =
     (case fetchData_frontend rt docRef w fetch of
        (w', es) \<Rightarrow> es @ polls_frontend rt docRef w' ts)"

definition onSnapshot_frontend ::
  "runtime \<Rightarrow> doc_ref \<Rightarrow> network \<Rightarrow> tick list \<Rightarrow> effect list" where
  "onSnapshot_frontend rt docRef fetch0 ts =
     (case fetchData_frontend rt docRef \<lparr>isActive = True, lastJson = JsNull\<rparr> fetch0 of
        (w, es) \<Rightarrow> es @ polls_frontend rt docRef w ts)"

text \<open>Admin: \<open>fetchData\<close> inside \<open>onSnapshot\<close>, and the interval.\<close>

definition fetchData_admin :: "doc_ref \<Rightarrow> network \<Rightarrow> effect list" where
  "fetchData_admin docRef fetch =
     (case getDoc BACKEND_URL_admin fetch docRef of
        Inl e \<Rightarrow> []
      | Inr snap \<Rightarrow> [Callback snap])"

fun polls_admin :: "doc_ref \<Rightarrow> bool \<Rightarrow> tick list \<Rightarrow> effect list" where
  "polls_admin docRef running [] = []"
| "polls_admin docRef running (Unsubscribe # ts) = ClearInterval # polls_admin docRef False ts"
| "polls_admin docRef running (TimerFires fetch # ts) =
     (if running then fetchData_admin docRef fetch else []) @ polls_admin docRef running ts"

definition onSnapshot_admin :: "doc_ref \<Rightarrow> network \<Rightarrow> tick list \<Rightarrow> effect list" where
  "onSnapshot_admin docRef fetch0 ts =
     SetInterval 2000 # fetchData_admin docRef fetch0 @ polls_admin docRef True ts"

section \<open>The Gemini client: \<open>callGeminiAPI\<close>\<close>

definition MAX_RETRIES :: nat where
  "MAX_RETRIES = 3"

definition INITIAL_DELAY_MS :: nat where
  "INITIAL_DELAY_MS = 2000"

text \<open>
  What one \<open>fetch\<close> of the loop meets: the promise rejects, or a response arrives with a
  status and a body. Of the body the code reads \<open>error.message\<close> (on a failure status) and
  the text of the first candidate (on success). The body may fail to parse
  (\<open>BodyUnreadable\<close>, with the parser's message), or be the JSON value \<open>null\<close>, on which
  both reads throw a \<open>TypeError\<close>; any other body is \<open>Body m t\<close>, with \<open>m\<close> the
  \<open>error.message\<close> and \<open>t\<close> the candidate text, where present.
\<close>

datatype gemini_body =
    BodyUnreadable string
  | BodyNull
  | Body "string option" "string option"

datatype gemini_fetch = FetchRejects string | GeminiResponse nat gemini_body

datatype gemini_effect = Fetch | Sleep nat

datatype attempt_outcome = Continue nat | Return string | Throw exn

definition backoff_delay :: "nat \<Rightarrow> nat" where
  "backoff_delay attempt = INITIAL_DELAY_MS * 2 ^ attempt"

definition api_error_message :: "nat \<Rightarrow> gemini_body \<Rightarrow> string" where
  "api_error_message st b =
     (case b of
        Body (Some m) t \<Rightarrow> if m \<noteq> [] then m else ''Gemini API error: '' @ show_nat st
      | _ \<Rightarrow> ''Gemini API error: '' @ show_nat st)"

text \<open>The \<open>try\<close> block of one iteration.\<close>

definition try_block :: "nat \<Rightarrow> gemini_fetch \<Rightarrow> attempt_outcome" where
  "try_block attempt r =
     (case r of
        FetchRejects m \<Rightarrow> Throw (TypeError m)
      | GeminiResponse st b \<Rightarrow>
          if st = 429 \<or> st = 503 then Continue (backoff_delay attempt)
          else if \<not> response_ok st then
            (case b of
               BodyNull \<Rightarrow> Throw (TypeError ''Cannot read properties of null (reading error)'')
             | _ \<Rightarrow> Throw (Error (api_error_message st b)))
          else
            (case b of
               BodyUnreadable m \<Rightarrow> Throw (SyntaxError m)
             | BodyNull \<Rightarrow>
                 Throw (TypeError ''Cannot read properties of null (reading candidates)'')
             | Body m None \<Rightarrow> Throw (Error ''No response generated from Gemini API'')
             | Body m (Some text) \<Rightarrow>
                 if text = [] then Throw (Error ''No response generated from Gemini API'')
                 else Return text))"

text \<open>
  The \<open>for\<close> loop, from iteration \<open>attempt\<close> on; \<open>env i\<close> is what the fetch of
  iteration \<open>i\<close> meets. The \<open>catch\<close> clause records the error, sleeps when the message
  mentions 429 and the attempt is not the last, and in every case falls through to the
  next iteration.
\<close>

function callGeminiAPI_loop ::
  "(nat \<Rightarrow> gemini_fetch) \<Rightarrow> nat \<Rightarrow> exn option \<Rightarrow> (exn + string) \<times> gemini_effect list" where
  "callGeminiAPI_loop env attempt lastError =
     (if attempt < MAX_RETRIES then
        (case try_block attempt (env attempt) of
           Continue delay \<Rightarrow>
             (case callGeminiAPI_loop env (Suc attempt) lastError of
                (res, es) \<Rightarrow> (res, Fetch # Sleep delay # es))
         | Return text \<Rightarrow> (Inr text, [Fetch])
         | Throw e \<Rightarrow>
             if attempt < MAX_RETRIES - 1 \<and> str_includes (message e) ''429'' then
               (case callGeminiAPI_loop env (Suc attempt) (Some e) of
                  (res, es) \<Rightarrow> (res, Fetch # Sleep (backoff_delay attempt) # es))
             else
               (case callGeminiAPI_loop env (Suc attempt) (Some e) of
                  (res, es) \<Rightarrow> (res, Fetch # es)))
      else
        (Inl (case lastError of
                Some e \<Rightarrow> e
              | None \<Rightarrow> Error ''Failed after multiple retries''), []))"
  by pat_completeness auto
termination
  by (relation "measure (\<lambda>(env, attempt, lastError). MAX_RETRIES - attempt)") auto

declare callGeminiAPI_loop.simps [simp del]

definition callGeminiAPI ::
  "string option \<Rightarrow> (nat \<Rightarrow> gemini_fetch) \<Rightarrow> (exn + string) \<times> gemini_effect list" where
  "callGeminiAPI GEMINI_API_KEY env =
     (if GEMINI_API_KEY = None \<or> GEMINI_API_KEY = Some [] then
        (Inl (Error ''Gemini API key not configured. Please set VITE_GEMINI_API_KEY in your .env file.''), [])
      else callGeminiAPI_loop env 0 None)"

text \<open>The two statuses the loop treats as rate limiting.\<close>

definition rate_limited :: "gemini_fetch \<Rightarrow> bool" where
  "rate_limited r = (case r of GeminiResponse st b \<Rightarrow> st = 429 \<or> st = 503 | _ \<Rightarrow> False)"

section \<open>The document summarizer (AI service)\<close>

definition estimateTokenCount :: "string \<Rightarrow> nat" where
  "estimateTokenCount text = (if text = [] then 0 else (length text + 3) div 4)"

text \<open>
  The configuration, as far as the summarizer reads it. An absent configuration behaves as
  one whose provider is not \<open>openai\<close> and whose \<open>openai\<close> entry is undefined.
\<close>

record openai_config =
  apiKey :: string
  baseUrl :: "string option"
  model :: "string option"

record ai_config =
  provider :: string
  openai :: "openai_config option"

text \<open>\<open>toLowerCase\<close> on the letters A to Z.\<close>

definition to_lower_char :: "char \<Rightarrow> char" where
  "to_lower_char c =
     (case map_of (zip ''ABCDEFGHIJKLMNOPQRSTUVWXYZ'' ''abcdefghijklmnopqrstuvwxyz'') c of
        Some l \<Rightarrow> l
      | None \<Rightarrow> c)"

definition toLowerCase :: "string \<Rightarrow> string" where
  "toLowerCase s = map to_lower_char s"

definition getContextLimit :: "ai_config \<Rightarrow> nat" where
  "getContextLimit config =
     (if provider config = ''openai'' then
        (let m = (case openai config of
                    None \<Rightarrow> []
                  | Some oc \<Rightarrow> (case model oc of None \<Rightarrow> [] | Some name \<Rightarrow> toLowerCase name))
         in if str_includes m ''deepseek'' then 131072
            else if str_includes m ''gpt-4'' then 128000
            else if str_includes m ''gpt-3.5'' then 16385
            else 32000)
      else 1000000)"

text \<open>
  The chat-completion call made for one chunk is determined by the chunk and the target
  (the prompt is a fixed template around them). The language model is an argument: what
  the call yields for a chunk and a target. \<open>CallFails\<close> stands for every way the call
  throws (the request rejects, the proxy answers with a failure status, the body is not
  JSON or is \<open>null\<close>), \<open>ApiError\<close> for a body with an \<open>error\<close> field, and
  \<open>Completion c\<close> for a body whose first choice has content \<open>c\<close>, if any.
\<close>

datatype llm_outcome = CallFails | ApiError | Completion "string option"

type_synonym llm = "string \<Rightarrow> nat \<Rightarrow> llm_outcome"

text \<open>What the routine reports through \<open>onProgress\<close>, and the model calls it makes.\<close>

datatype progress =
    Analyzing nat
  | SummarizingDocument
  | Splitting nat
  | SummarizingChunk nat nat
  | AdditionalPass
  | Complete

datatype event = Report progress | LlmCall string nat nat

definition max_tokens :: "nat \<Rightarrow> nat" where
  "max_tokens targetTokens = min (targetTokens + 500) 8000"

text \<open>The \<open>try\<close> block of \<open>summarizeSingleChunk\<close>.\<close>

definition summarizeSingleChunk_try ::
  "llm \<Rightarrow> string \<Rightarrow> nat \<Rightarrow> ai_config \<Rightarrow> (exn + string) \<times> event list" where
  "summarizeSingleChunk_try ask text targetTokens config =
     (case openai config of
        None \<Rightarrow> (Inl (TypeError ''Cannot destructure property of undefined''), [])
      | Some oc \<Rightarrow>
          (let call = LlmCall text targetTokens (max_tokens targetTokens) in
           case ask text targetTokens of
             CallFails \<Rightarrow> (Inl (Error ''Proxy Error''), [call])
           | ApiError \<Rightarrow> (Inl (Error ''API Error''), [call])
           | Completion None \<Rightarrow> (Inr [], [call])
           | Completion (Some summary) \<Rightarrow> (Inr summary, [call])))"

text \<open>\<open>summarizeSingleChunk\<close>: the \<open>catch\<close> clause truncates the chunk.\<close>

definition summarizeSingleChunk ::
  "llm \<Rightarrow> string \<Rightarrow> nat \<Rightarrow> ai_config \<Rightarrow> string \<times> event list" where
  "summarizeSingleChunk ask text targetTokens config =
     (let targetChars = targetTokens * 4 in
      case summarizeSingleChunk_try ask text targetTokens config of
        (Inl e, evs) \<Rightarrow> (take targetChars text, evs)
      | (Inr summary, evs) \<Rightarrow> (summary, evs))"

text \<open>
  The \<open>while\<close> loop that cuts the text into chunks. With \<open>maxChunkChars = 0\<close> and a
  non-empty text it never ends, which is the value \<open>None\<close>.
\<close>

partial_function (option) split_loop :: "nat \<Rightarrow> string \<Rightarrow> string list \<Rightarrow> string list option" where
  "split_loop maxChunkChars remaining chunks =
     (if length remaining > 0
      then split_loop maxChunkChars (drop maxChunkChars remaining)
             (chunks @ [take maxChunkChars remaining])
      else Some chunks)"

text \<open>The \<open>for\<close> loop over the chunks, from chunk number \<open>i\<close> (counted from 0) on.\<close>

fun summarize_chunks ::
  "llm \<Rightarrow> ai_config \<Rightarrow> nat \<Rightarrow> nat \<Rightarrow> nat \<Rightarrow> string list \<Rightarrow> string list \<times> event list" where
  "summarize_chunks ask config tokensPerChunkSummary n i [] = ([], [])"
| "summarize_chunks ask config tokensPerChunkSummary n i (c # cs) =
     (case summarizeSingleChunk ask c tokensPerChunkSummary config of
        (summary, evs) \<Rightarrow>
          (case summarize_chunks ask config tokensPerChunkSummary n (Suc i) cs of
             (summaries, evs') \<Rightarrow>
               (summary # summaries, Report (SummarizingChunk (Suc i) n) # evs @ evs')))"

partial_function (option) summarizeDocumentForContext ::
  "llm \<Rightarrow> string \<Rightarrow> nat \<Rightarrow> ai_config \<Rightarrow> (string \<times> event list) option" where
  "summarizeDocumentForContext ask text targetTokens config =
     (let currentTokens = estimateTokenCount text in
      if currentTokens \<le> targetTokens then Some (text, [])
      else
        (let contextLimit = getContextLimit config;
             maxChunkTokens = contextLimit div 4;
             maxChunkChars = maxChunkTokens * 4;
             analyzing = Report (Analyzing ((currentTokens + 500) div 1000))
         in if currentTokens < maxChunkTokens then
              (case summarizeSingleChunk ask text targetTokens config of
                 (summary, evs) \<Rightarrow> Some (summary, analyzing # Report SummarizingDocument # evs))
            else
              Option.bind (split_loop maxChunkChars text []) (\<lambda>chunks.
                let tokensPerChunkSummary =
                      min (maxChunkTokens div 10) (targetTokens div length chunks);
                    done = summarize_chunks ask config tokensPerChunkSummary
                             (length chunks) 0 chunks;
                    combinedSummary = join [CHR 0x0A, CHR 0x0A] (fst done);
                    combinedTokens = estimateTokenCount combinedSummary;
                    evs = analyzing # Report (Splitting (length chunks)) # snd done
                in if combinedTokens > targetTokens then
                     Option.bind
                       (summarizeDocumentForContext ask combinedSummary targetTokens config)
                       (\<lambda>r. Some (fst r, evs @ Report AdditionalPass # snd r))
                   else Some (combinedSummary, evs @ [Report Complete]))))"

section \<open>Backup restore: \<open>handleFileChange\<close>\<close>

text \<open>
  \<open>v.name\<close> for a value \<open>v\<close> other than \<open>null\<close> and one of the field names the
  restore code reads, none of which is a built-in member of any prototype: the own
  property of an object, \<open>undefined\<close> otherwise.
\<close>

definition field_of :: "json \<Rightarrow> string \<Rightarrow> json option" where
  "field_of v name = (case v of JObj ps \<Rightarrow> map_of ps name | _ \<Rightarrow> None)"

text \<open>The value, when there is one and it is truthy.\<close>

definition truthy_value :: "json option \<Rightarrow> json option" where
  "truthy_value v = (case v of None \<Rightarrow> None | Some j \<Rightarrow> if truthy j then Some j else None)"

datatype picked_file = NoFile | Unreadable string | Readable string

record restore_env =
  picked :: picked_file
  confirmed :: bool
  post_answer :: fetch_result
  now_ms :: nat
  now_iso :: string

datatype ui_effect =
    Confirm
  | SetIsImporting bool
  | SetStatus string string
  | ClearInput
  | SetItem string string
  | RemoveItem string
  | Post string string
  | ScheduleReload nat

text \<open>\<open>if (v) localStorage.setItem(key, v)\<close>; \<open>setItem\<close> stores the string form of \<open>v\<close>.\<close>

definition set_if_truthy :: "runtime \<Rightarrow> string \<Rightarrow> json option \<Rightarrow> ui_effect list" where
  "set_if_truthy rt key v =
     (case truthy_value v of
        None \<Rightarrow> []
      | Some j \<Rightarrow> [SetItem key (String_of rt j)])"

definition settings_keys :: "string list" where
  "settings_keys =
     [''quickstor_ai_config'', ''quickstor_system_prompt_custom'',
      ''quickstor_content_filling_prompt'', ''quickstor_prompts'']"

definition contentKeys :: "string list" where
  "contentKeys =
     [''quickstor_pages'', ''quickstor_navbar'', ''quickstor_footer'',
      ''quickstor_activeTheme'', ''quickstor_savedThemes'', ''quickstor_custom_sections'']"

text \<open>Step 1 of the restore: the settings, from \<open>settings\<close> or else from the older \<open>localConfig\<close>.\<close>

definition restore_settings :: "runtime \<Rightarrow> json \<Rightarrow> ui_effect list" where
  "restore_settings rt backup =
     (case truthy_value (field_of backup ''settings'') of
        Some st \<Rightarrow>
          set_if_truthy rt ''quickstor_ai_config'' (field_of st ''aiConfig'')
          @ set_if_truthy rt ''quickstor_system_prompt_custom'' (field_of st ''systemPrompt'')
          @ set_if_truthy rt ''quickstor_content_filling_prompt'' (field_of st ''fillingPrompt'')
          @ set_if_truthy rt ''quickstor_prompts'' (field_of st ''prompts'')
      | None \<Rightarrow>
          (case truthy_value (field_of backup ''localConfig'') of
             Some lc \<Rightarrow>
               concat (map (\<lambda>(key, v).
                   if key \<in> set settings_keys then set_if_truthy rt key (Some v) else [])
                 (spread lc))
           | None \<Rightarrow> []))"

text \<open>\<open>x ? JSON.parse(x) : null\<close>\<close>

definition parse_or_null :: "runtime \<Rightarrow> json option \<Rightarrow> exn + json" where
  "parse_or_null rt v =
     (case truthy_value v of
        None \<Rightarrow> Inr JNull
      | Some j \<Rightarrow>
          (case JSON_parse rt (String_of rt j) of
             None \<Rightarrow> Inl (SyntaxError ''Unexpected token in JSON'')
           | Some p \<Rightarrow> Inr p))"

fun parse_fields :: "runtime \<Rightarrow> json \<Rightarrow> (string \<times> string) list \<Rightarrow> exn + props" where
  "parse_fields rt lc [] = Inr []"
| "parse_fields rt lc ((name, key) # rest) =
     (case parse_or_null rt (field_of lc key) of
        Inl e \<Rightarrow> Inl e
      | Inr p \<Rightarrow>
          (case parse_fields rt lc rest of
             Inl e \<Rightarrow> Inl e
           | Inr ps \<Rightarrow> Inr ((name, p) # ps)))"

definition staging_fields :: "(string \<times> string) list" where
  "staging_fields =
     [(''pages'', ''quickstor_pages''), (''navbar'', ''quickstor_navbar''),
      (''footer'', ''quickstor_footer''), (''savedThemes'', ''quickstor_savedThemes''),
      (''theme'', ''quickstor_activeTheme''), (''customSections'', ''quickstor_custom_sections'')]"

text \<open>Step 2: the staging state to restore, \<open>None\<close> for \<open>null\<close>.\<close>

definition stagingStateToRestore :: "runtime \<Rightarrow> json \<Rightarrow> exn + json option" where
  "stagingStateToRestore rt backup =
     (case truthy_value (field_of backup ''appState'') of
        Some appState \<Rightarrow> Inr (Some appState)
      | None \<Rightarrow>
          (case truthy_value (field_of backup ''localConfig'') of
             Some lc \<Rightarrow>
               (case parse_fields rt lc staging_fields of
                  Inl e \<Rightarrow> Inl e
                | Inr ps \<Rightarrow> Inr (Some (JObj ps)))
           | None \<Rightarrow> Inr None))"

text \<open>Step 3: the staging state is merged over the staging node of the backend data.\<close>

definition merge_staging :: "props \<Rightarrow> json \<Rightarrow> nat \<Rightarrow> string \<Rightarrow> props" where
  "merge_staging newBackendData staging ms stamp =
     (let existing =
            (case truthy_value (map_of newBackendData ''sites/quickstor-staging'') of
               Some node \<Rightarrow> node
             | None \<Rightarrow> JObj []);
          merged =
            merge_props (merge_props (spread existing) (spread staging))
              [(''version'', JStr (''RESTORED-'' @ show_nat ms)), (''lastUpdated'', JStr stamp)]
      in AList.update ''sites/quickstor-staging'' (JObj merged) newBackendData)"

text \<open>
  The \<open>try\<close> block, from \<open>JSON.parse\<close> on: the exception it ends with, if any, and the
  effects it had up to there.
\<close>

definition restore_try :: "runtime \<Rightarrow> restore_env \<Rightarrow> string \<Rightarrow> exn option \<times> ui_effect list" where
  "restore_try rt env content_text =
     (case JSON_parse rt content_text of
        None \<Rightarrow> (Some (SyntaxError ''Unexpected token in JSON''), [])
      | Some backup \<Rightarrow>
          if backup = JNull then (Some (TypeError ''Cannot read properties of null''), [])
          else
            (case truthy_value (field_of backup ''backendData'') of
               None \<Rightarrow> (Some (Error ''Invalid backup format: missing backend data''), [])
             | Some backendData \<Rightarrow>
                 (let settings = restore_settings rt backup;
                      newBackendData = spread backendData
                  in case stagingStateToRestore rt backup of
                       Inl e \<Rightarrow> (Some e, settings)
                     | Inr staging \<Rightarrow>
                         (let finalData =
                                (case staging of
                                   None \<Rightarrow> newBackendData
                                 | Some st \<Rightarrow>
                                     merge_staging newBackendData st (now_ms env) (now_iso env));
                              post = Post ''http://localhost:3000/api/data''
                                       (JSON_stringify rt (JObj finalData))
                          in case post_answer env of
                               NetworkError \<Rightarrow>
                                 (Some (TypeError ''Failed to fetch''), settings @ [post])
                             | HttpResponse st body \<Rightarrow>
                                 if \<not> response_ok st then
                                   (Some (Error ''Failed to restore backend data''),
                                    settings @ [post])
                                 else
                                   (None,
                                    settings @ [post] @ map RemoveItem contentKeys
                                    @ [SetStatus ''success''
                                         ''System restored successfully! Reloading...'',
                                       ScheduleReload 1000])))))"

definition handleFileChange :: "runtime \<Rightarrow> restore_env \<Rightarrow> ui_effect list" where
  "handleFileChange rt env =
     (if picked env = NoFile then []
      else if \<not> confirmed env then [Confirm, ClearInput]
      else
        [Confirm, SetIsImporting True, SetStatus [] []]
        @ (case (case picked env of
                   Readable content_text \<Rightarrow> restore_try rt env content_text
                 | Unreadable m \<Rightarrow> (Some (Error m), [])
                 | NoFile \<Rightarrow> (None, [])) of
             (None, es) \<Rightarrow> es
           | (Some e, es) \<Rightarrow>
               es @ [SetStatus ''error'' (''Failed to restore backup: '' @ message e)])
        @ [SetIsImporting False, ClearInput])"

text \<open>What the effects do to \<open>localStorage\<close>, and the requests among them.\<close>

fun apply_effect :: "ui_effect \<Rightarrow> (string \<rightharpoonup> string) \<Rightarrow> (string \<rightharpoonup> string)" where
  "apply_effect (SetItem k v) m = m(k \<mapsto> v)"
| "apply_effect (RemoveItem k) m = m(k := None)"
| "apply_effect e m = m"

definition storage_after :: "(string \<rightharpoonup> string) \<Rightarrow> ui_effect list \<Rightarrow> (string \<rightharpoonup> string)" where
  "storage_after m es = fold apply_effect es m"

fun requests_sent :: "ui_effect list \<Rightarrow> (string \<times> string) list" where
  "requests_sent [] = []"
| "requests_sent (Post url body # es) = (url, body) # requests_sent es"
| "requests_sent (e # es) = requests_sent es"

section \<open>Values used in statements and examples\<close>

text \<open>
  A deterministic summarizer that halves its input: whatever the target, it answers with
  the first half of the chunk.
\<close>

definition halving_summarizer :: llm where
  "halving_summarizer text targetTokens = Completion (Some (take (length text div 2) text))"

text \<open>
  Names for two values of the chunked branch: the chunk limit in tokens, and the
  concatenation of the chunk summaries.
\<close>

definition maxChunkTokens_of :: "ai_config \<Rightarrow> nat" where
  "maxChunkTokens_of config = getContextLimit config div 4"

definition combined_summary :: "llm \<Rightarrow> ai_config \<Rightarrow> nat \<Rightarrow> string list \<Rightarrow> string" where
  "combined_summary ask config targetTokens chunks =
     join [CHR 0x0A, CHR 0x0A]
       (map (\<lambda>c. fst (summarizeSingleChunk ask c
                 (min (maxChunkTokens_of config div 10) (targetTokens div length chunks)) config))
          chunks)"

text \<open>
  The cut of a text into consecutive pieces of \<open>n\<close> characters, the last one possibly
  shorter: piece \<open>i\<close> holds the characters from position \<open>i * n\<close> on.
\<close>

definition chunks_of :: "nat \<Rightarrow> string \<Rightarrow> string list" where
  "chunks_of n s = map (\<lambda>i. take n (drop (i * n) s)) [0..<(length s + n - 1) div n]"

text \<open>
  The model call for a chunk fails: there is no \<open>openai\<close> entry to read, the call throws,
  or the answer carries an API error. \<open>chunk_result\<close> is then the truncated chunk, and
  otherwise the content of the answer (empty when it has none).
\<close>

definition call_fails :: "llm \<Rightarrow> ai_config \<Rightarrow> string \<Rightarrow> nat \<Rightarrow> bool" where
  "call_fails ask config c t =
     (openai config = None \<or> ask c t = CallFails \<or> ask c t = ApiError)"

definition completion_text :: "llm_outcome \<Rightarrow> string" where
  "completion_text r = (case r of Completion (Some s) \<Rightarrow> s | _ \<Rightarrow> [])"

definition chunk_result :: "llm \<Rightarrow> ai_config \<Rightarrow> nat \<Rightarrow> string \<Rightarrow> string" where
  "chunk_result ask config t c =
     (if call_fails ask config c t then take (t * 4) c else completion_text (ask c t))"

text \<open>The model call made for a chunk, and the events of one chunked pass.\<close>

definition chunk_events :: "ai_config \<Rightarrow> nat \<Rightarrow> string \<Rightarrow> event list" where
  "chunk_events config t c =
     (if openai config = None then [] else [LlmCall c t (max_tokens t)])"

definition pass_events :: "ai_config \<Rightarrow> nat \<Rightarrow> nat \<Rightarrow> string list \<Rightarrow> event list" where
  "pass_events config currentTokens t chunks =
     Report (Analyzing ((currentTokens + 500) div 1000))
     # Report (Splitting (length chunks))
     # concat (map (\<lambda>(j, c). Report (SummarizingChunk (Suc j) (length chunks))
                                 # chunk_events config t c)
                (enumerate 0 chunks))"

section \<open>A concrete runtime for evaluating examples\<close>

text \<open>
  The theorems below hold for every runtime. Where a closed example needs one, this runtime
  is used: its \<open>JSON.stringify\<close> is the compact rendering, right for values whose strings
  need no escaping; it parses three texts and rejects property access on receivers that
  are not plain objects.
\<close>

definition parse_examples :: "string \<Rightarrow> json option" where
  "parse_examples = map_of [(''{}'', JObj []), (''[]'', JArr []), (''null'', JNull)]"

definition show_int :: "int \<Rightarrow> string" where
  "show_int i = (if i < 0 then ''-'' @ show_nat (nat (- i)) else show_nat (nat i))"

fun plain_stringify :: "json \<Rightarrow> string" where
  "plain_stringify JNull = ''null''"
| "plain_stringify (JBool b) = (if b then ''true'' else ''false'')"
| "plain_stringify (JNum n) = show_int n"
| "plain_stringify (JStr s) = [CHR 0x22] @ s @ [CHR 0x22]"
| "plain_stringify (JArr xs) = ''['' @ join '','' (map plain_stringify xs) @ '']''"
| "plain_stringify (JObj ps) =
     ''{'' @ join '','' (map (\<lambda>(k, v). [CHR 0x22] @ k @ [CHR 0x22] @ '':'' @ plain_stringify v) ps)
       @ ''}''"

definition example_runtime :: runtime where
  "example_runtime =
     \<lparr>JSON_parse = parse_examples,
      JSON_stringify = plain_stringify,
      String_of = (\<lambda>v. case v of JStr s \<Rightarrow> s | _ \<Rightarrow> plain_stringify v),
      exotic_get = (\<lambda>recv k. Inl (TypeError ''unsupported receiver'')),
      exotic_set = (\<lambda>recv k v. Inl (TypeError ''unsupported receiver''))\<rparr>"

text \<open>Networks used in examples.\<close>

definition failing_reads :: network where
  "failing_reads = (\<lambda>req. case req of
       GET u \<Rightarrow> HttpResponse 500 None
     | POST u b \<Rightarrow> HttpResponse 200 (Some (JObj [(''success'', JBool True)])))"

definition steady_network :: network where
  "steady_network = (\<lambda>req. HttpResponse 200 (Some (JObj [(''title'', JStr ''a'')])))"

definition changed_network :: network where
  "changed_network = (\<lambda>req. HttpResponse 200 (Some (JObj [(''title'', JStr ''b'')])))"

text \<open>A configuration used in examples.\<close>

definition example_config :: ai_config where
  "example_config =
     \<lparr>provider = ''openai'',
      openai = Some \<lparr>apiKey = ''k'', baseUrl = None, model = Some ''GPT-4o''\<rparr>\<rparr>"

text \<open>
  A configuration with the smallest context window (16385 tokens, chunks of 16384
  characters), and a model that fails on chunks of that full size and answers \<open>ok\<close>
  otherwise.
\<close>

definition small_config :: ai_config where
  "small_config =
     \<lparr>provider = ''openai'',
      openai = Some \<lparr>apiKey = ''k'', baseUrl = None, model = Some ''gpt-3.5-turbo''\<rparr>\<rparr>"

definition fails_on_full_chunks :: llm where
  "fails_on_full_chunks c t =
     (if length c = 16384 then CallFails else Completion (Some ''ok''))"

section \<open>Properties of the backend store\<close>

lemma readData_write:
  "writeData fs d = Inr fs' \<Longrightarrow> readData fs' = d"
  by (auto simp: writeData_def readData_def split: if_splits)

lemma map_of_set_property:
  "k \<noteq> ''__proto__'' \<or> map_of obj k \<noteq> None \<Longrightarrow> map_of (set_property obj k v) k = Some v"
  by (auto simp: set_property_def update_conv')

text \<open>
  Writing a truthy value (every JSON object is one) to a path other than \<open>__proto__\<close>, or
  to an existing key, and reading it back returns the value.
\<close>

lemma post_then_get:
  assumes "readData fs = JObj obj" and "writable fs"
    and "P \<noteq> ''__proto__'' \<or> map_of obj P \<noteq> None" and "truthy V"
  shows "status (fst (post_doc rt fs P V)) = 200
       \<and> get_doc rt (snd (post_doc rt fs P V)) P = \<lparr>status = 200, payload = Value V\<rparr>"
  using assms map_of_set_property[OF assms(3), of V]
  by (simp add: post_doc_def get_doc_def assign_property_def read_property_def writeData_def
      readData_def get_property_def)

text \<open>
  Claim C2 (write then read returns the written value) at the path \<open>__proto__\<close>.
  Starting from the empty store, \<open>POST /api/data/__proto__\<close> with body \<open>{"a": 1}\<close>
  answers 200 but leaves the file unchanged, because \<open>allData['__proto__'] = newData\<close>
  sets the prototype instead of creating a key; the following \<open>GET\<close> answers 200 with
  \<open>Object.prototype\<close> (serialised as \<open>{}\<close>) and not with the body that was written.
  For every other path the round trip holds, see \<open>post_then_get\<close>.
\<close>

theorem proto_write_lost:
  "post_doc rt \<lparr>content = Some (JObj []), writable = True\<rparr> ''__proto__'' (JObj [(''a'', JNum 1)])
     = (\<lparr>status = 200,
         payload = Value (JObj [(''success'', JBool True), (''path'', JStr ''__proto__'')])\<rparr>,
        \<lparr>content = Some (JObj []), writable = True\<rparr>)
   \<and> get_doc rt \<lparr>content = Some (JObj []), writable = True\<rparr> ''__proto__''
     = \<lparr>status = 200, payload = ObjectPrototype\<rparr>"
  by (simp add: post_doc_def get_doc_def assign_property_def read_property_def writeData_def
      readData_def get_property_def set_property_def)

text \<open>
  Claim C3, amended. When the data file holds a JSON object and \<open>P\<close> is not the name
  of a member of \<open>Object.prototype\<close>, \<open>GET /api/data/P\<close> answers 404 exactly when
  \<open>P\<close> is not a key or the value stored under \<open>P\<close> is falsy; a key with a truthy value is
  answered with status 200 and that value; the handler never takes its error branch
  (status 500), so reading a path that was never written is a plain 404.
\<close>

theorem get_doc_not_found_iff:
  assumes "readData fs = JObj obj"
    and "P \<noteq> ''__proto__''" and "P \<notin> set object_prototype_functions"
  shows "(status (get_doc rt fs P) = 404 \<longleftrightarrow>
            (map_of obj P = None \<or> (\<exists>v. map_of obj P = Some v \<and> \<not> truthy v)))
       \<and> (\<forall>v. map_of obj P = Some v \<and> truthy v \<longrightarrow>
            get_doc rt fs P = \<lparr>status = 200, payload = Value v\<rparr>)
       \<and> status (get_doc rt fs P) \<in> {200, 404}"
  using assms
  by (auto simp: get_doc_def read_property_def get_property_def split: option.splits)

theorem get_doc_not_found_iff_witness:
  "status (get_doc example_runtime \<lparr>content = Some (JObj [(''sites/a'', JObj [])]), writable = True\<rparr> ''sites/b'') = 404
   \<and> get_doc example_runtime \<lparr>content = Some (JObj [(''sites/a'', JObj [])]), writable = True\<rparr> ''sites/a''
       = \<lparr>status = 200, payload = Value (JObj [])\<rparr>"
proof -
  let ?fs = "\<lparr>content = Some (JObj [(''sites/a'', JObj [])]), writable = True\<rparr>"
  have r: "readData ?fs = JObj [(''sites/a'', JObj [])]" by (simp add: readData_def)
  have b: "''sites/b'' \<noteq> ''__proto__''" "''sites/b'' \<notin> set object_prototype_functions"
    by (simp_all add: object_prototype_functions_def)
  have a: "''sites/a'' \<noteq> ''__proto__''" "''sites/a'' \<notin> set object_prototype_functions"
    by (simp_all add: object_prototype_functions_def)
  show ?thesis
    using get_doc_not_found_iff[OF r b, of example_runtime]
      get_doc_not_found_iff[OF r a, of example_runtime]
    by simp
qed

text \<open>
  Claim C3 as stated fails: with the store \<open>{"a": null}\<close> the key \<open>a\<close> is present, yet
  \<open>GET /api/data/a\<close> answers 404.
\<close>

theorem present_key_reads_404:
  "status (get_doc example_runtime \<lparr>content = Some (JObj [(''a'', JNull)]), writable = True\<rparr> ''a'') = 404
   \<and> ''a'' \<in> fst ` set [(''a'', JNull)]"
  by (simp add: get_doc_def read_property_def get_property_def readData_def)

text \<open>
  Claim C9. A full restore \<open>POST /api/data\<close> accepts a body object that maps \<open>P\<close> to
  \<open>null\<close>, \<open>false\<close>, \<open>0\<close> or the empty string and stores it as it is; afterwards the
  key is present in the store and \<open>GET /api/data/P\<close> answers 404, because the handler
  tests the truthiness of the stored value.
\<close>

theorem falsy_value_reads_as_missing:
  assumes "writable fs" and "map_of obj P = Some v"
    and "v \<in> {JNull, JBool False, JNum 0, JStr ''''}"
  shows "status (fst (post_all fs (JObj obj))) = 200
       \<and> readData (snd (post_all fs (JObj obj))) = JObj obj
       \<and> status (get_doc rt (snd (post_all fs (JObj obj))) P) = 404"
  using assms
  by (auto simp: post_all_def writeData_def readData_def get_doc_def read_property_def
      get_property_def)

theorem falsy_value_reads_as_missing_witness:
  "status (get_doc example_runtime
      (snd (post_all \<lparr>content = None, writable = True\<rparr> (JObj [(''flag'', JBool False)]))) ''flag'') = 404
   \<and> readData (snd (post_all \<lparr>content = None, writable = True\<rparr> (JObj [(''flag'', JBool False)])))
       = JObj [(''flag'', JBool False)]"
  using falsy_value_reads_as_missing[of "\<lparr>content = None, writable = True\<rparr>"
      "[(''flag'', JBool False)]" "''flag''" "JBool False" example_runtime]
  by simp

section \<open>Properties of the store adapters\<close>

lemma getDoc_total: "\<exists>snap. getDoc url fetch docRef = Inr snap"
  by (simp add: getDoc_def split: sum.splits)

lemma getDoc_failure:
  assumes "fetch (GET (url @ ''/'' @ ref_path docRef)) = r"
    and "r = NetworkError
       \<or> (\<exists>st body. r = HttpResponse st body \<and> (\<not> response_ok st \<or> body = None))"
  shows "getDoc url fetch docRef = Inr (missing_snapshot docRef)"
  using assms by (auto simp: getDoc_def getDoc_try_def)

text \<open>
  Claim C10. \<open>getDoc\<close> always resolves to a snapshot. When the request fails (the fetch
  rejects, the status is not 2xx, or the body is not JSON) the snapshot has
  \<open>exists() = false\<close> and \<open>data() = undefined\<close>, the same one a 404 gives. In that
  case \<open>setDoc\<close> with \<open>{merge: true}\<close> sends, after the read, a POST whose body is the
  given data alone: a full overwrite.
\<close>

theorem getDoc_never_rejects:
  "(\<exists>snap. getDoc url fetch docRef = Inr snap)
   \<and> (fetch (GET (url @ ''/'' @ ref_path docRef)) = NetworkError
        \<or> (\<exists>st body. fetch (GET (url @ ''/'' @ ref_path docRef)) = HttpResponse st body
              \<and> (\<not> response_ok st \<or> body = None))
      \<longrightarrow> getDoc url fetch docRef
            = Inr \<lparr>snap_exists = False, snap_data = None, snap_id = ref_id docRef\<rparr>
        \<and> snd (setDoc rt url fetch docRef data (Some \<lparr>merge = True\<rparr>))
            = [GET (url @ ''/'' @ ref_path docRef),
               POST (url @ ''/'' @ ref_path docRef) (JSON_stringify rt data)])"
proof (intro conjI impI)
  show "\<exists>snap. getDoc url fetch docRef = Inr snap" by (rule getDoc_total)
next
  assume f: "fetch (GET (url @ ''/'' @ ref_path docRef)) = NetworkError
        \<or> (\<exists>st body. fetch (GET (url @ ''/'' @ ref_path docRef)) = HttpResponse st body
              \<and> (\<not> response_ok st \<or> body = None))"
  have g: "getDoc url fetch docRef = Inr (missing_snapshot docRef)"
    by (rule getDoc_failure[OF refl]) (use f in blast)
  show "getDoc url fetch docRef
            = Inr \<lparr>snap_exists = False, snap_data = None, snap_id = ref_id docRef\<rparr>"
    using g by (simp add: missing_snapshot_def)
  show "snd (setDoc rt url fetch docRef data (Some \<lparr>merge = True\<rparr>))
            = [GET (url @ ''/'' @ ref_path docRef),
               POST (url @ ''/'' @ ref_path docRef) (JSON_stringify rt data)]"
    by (simp add: setDoc_def g missing_snapshot_def Let_def
        split: fetch_result.splits option.splits)
qed

theorem getDoc_never_rejects_witness:
  "getDoc BACKEND_URL_admin failing_reads (doc [''sites'', ''quickstor-staging''])
     = Inr \<lparr>snap_exists = False, snap_data = None, snap_id = Some ''quickstor-staging''\<rparr>
   \<and> snd (setDoc example_runtime BACKEND_URL_admin failing_reads
            (doc [''sites'', ''quickstor-staging'']) (JObj [(''title'', JStr ''x'')])
            (Some \<lparr>merge = True\<rparr>))
     = [GET ''/api/data/sites/quickstor-staging'',
        POST ''/api/data/sites/quickstor-staging''
          (plain_stringify (JObj [(''title'', JStr ''x'')]))]"
  using getDoc_never_rejects[of BACKEND_URL_admin failing_reads
      "doc [''sites'', ''quickstor-staging'']" example_runtime "JObj [(''title'', JStr ''x'')]"]
  by (simp add: failing_reads_def doc_def getKey_def BACKEND_URL_admin_def response_ok_def
      example_runtime_def)

lemma stringify_data_not_null: "stringify_data rt d \<noteq> JsNull"
  by (simp add: stringify_data_def split: option.splits)

lemma callbacks_append: "callbacks (xs @ ys) = callbacks xs @ callbacks ys"
  by (induction xs rule: callbacks.induct) auto

lemma remdups_adj_hd_tl: "remdups_adj (x # xs) = x # tl (remdups_adj (x # xs))"
  by (cases xs) auto

text \<open>
  The frontend watcher from a state on: the serialised contents it calls back with are the
  polled ones with every repetition of the previous value dropped.
\<close>

lemma polls_frontend_remdups:
  "isActive w \<Longrightarrow>
   map (\<lambda>s. stringify_data rt (snap_data s))
       (callbacks (polls_frontend rt docRef w (map TimerFires envs)))
   = tl (remdups_adj (lastJson w #
       map (\<lambda>f. stringify_data rt (snap_data (projr (getDoc BACKEND_URL_frontend f docRef)))) envs))"
proof (induction envs arbitrary: w)
  case Nil
  then show ?case by simp
next
  case (Cons f envs)
  obtain s where g: "getDoc BACKEND_URL_frontend f docRef = Inr s"
    using getDoc_total by blast
  show ?case
  proof (cases "stringify_data rt (snap_data s) = lastJson w")
    case True
    then have "fetchData_frontend rt docRef w f = (w, [SetTimeout 2000])"
      using Cons.prems by (simp add: g fetchData_frontend_def)
    then show ?thesis using Cons.IH[OF Cons.prems] True by (simp add: g)
  next
    case False
    let ?w = "w\<lparr>lastJson := stringify_data rt (snap_data s)\<rparr>"
    have "fetchData_frontend rt docRef w f = (?w, [Callback s, SetTimeout 2000])"
      using Cons.prems False by (simp add: g fetchData_frontend_def Let_def)
    moreover have "isActive ?w" using Cons.prems by simp
    ultimately show ?thesis
      using Cons.IH[of ?w] False remdups_adj_hd_tl[of "stringify_data rt (snap_data s)"]
      by (simp add: g)
  qed
qed

lemma onSnapshot_frontend_first:
  "callbacks (onSnapshot_frontend rt docRef f0 ts)
   = projr (getDoc BACKEND_URL_frontend f0 docRef)
     # callbacks (polls_frontend rt docRef
         \<lparr>isActive = True,
          lastJson = stringify_data rt (snap_data (projr (getDoc BACKEND_URL_frontend f0 docRef)))\<rparr> ts)"
proof -
  obtain s where g: "getDoc BACKEND_URL_frontend f0 docRef = Inr s"
    using getDoc_total by blast
  have "stringify_data rt (snap_data s) \<noteq> JsNull" by (rule stringify_data_not_null)
  then show ?thesis
    by (simp add: g onSnapshot_frontend_def fetchData_frontend_def Let_def callbacks_append)
qed

lemma fetchData_frontend_effects:
  "fetchData_frontend rt docRef w f = (w', es) \<Longrightarrow> e \<in> set es \<Longrightarrow>
   (\<exists>s. e = Callback s) \<or> e = SetTimeout 2000"
  by (auto simp: fetchData_frontend_def Let_def split: if_splits sum.splits)

lemma polls_frontend_effects:
  "e \<in> set (polls_frontend rt docRef w ts) \<Longrightarrow> (\<exists>s. e = Callback s) \<or> e = SetTimeout 2000"
proof (induction rt docRef w ts rule: polls_frontend.induct)
  case (1 rt docRef w)
  then show ?case by simp
next
  case (2 rt docRef w ts)
  then show ?case by simp
next
  case (3 rt docRef w fetch ts)
  obtain w' es where f: "fetchData_frontend rt docRef w fetch = (w', es)"
    by (cases "fetchData_frontend rt docRef w fetch")
  from 3 f show ?case
    using fetchData_frontend_effects[OF f, of e] by auto
qed

lemma onSnapshot_frontend_effects:
  "e \<in> set (onSnapshot_frontend rt docRef f0 ts) \<Longrightarrow>
   (\<exists>s. e = Callback s) \<or> e = SetTimeout 2000"
proof -
  assume a: "e \<in> set (onSnapshot_frontend rt docRef f0 ts)"
  obtain w es where f:
    "fetchData_frontend rt docRef \<lparr>isActive = True, lastJson = JsNull\<rparr> f0 = (w, es)"
    by (cases "fetchData_frontend rt docRef \<lparr>isActive = True, lastJson = JsNull\<rparr> f0")
  from a f show ?thesis
    using fetchData_frontend_effects[OF f, of e] polls_frontend_effects[of e rt docRef w ts]
    by (auto simp: onSnapshot_frontend_def)
qed

lemma fetchData_admin_callback:
  "fetchData_admin docRef f = [Callback (projr (getDoc BACKEND_URL_admin f docRef))]"
proof -
  obtain s where g: "getDoc BACKEND_URL_admin f docRef = Inr s"
    using getDoc_total by blast
  show ?thesis by (simp add: g fetchData_admin_def)
qed

lemma polls_admin_all:
  "callbacks (polls_admin docRef True (map TimerFires envs))
   = map (\<lambda>f. projr (getDoc BACKEND_URL_admin f docRef)) envs"
  by (induction envs) (simp_all add: callbacks_append fetchData_admin_callback)

text \<open>
  Claim C1, amended. Frontend adapter: the subscription calls back at once with the first
  snapshot whatever it holds; over the following polls the serialised contents of the
  callbacks are those of the polled snapshots with each value that repeats its predecessor
  dropped, so the callback fires exactly when the serialised value differs from the one of
  the last callback, and no two consecutive callbacks carry the same serialised content;
  every timer it arms is a 2000 ms timeout. Admin adapter: the subscription arms a 2000 ms
  interval and calls back with every polled snapshot, changed or not.
\<close>

theorem watcher_callbacks:
  "(\<exists>rest. callbacks (onSnapshot_frontend rt docRef f0 ts)
             = projr (getDoc BACKEND_URL_frontend f0 docRef) # rest)
   \<and> map (\<lambda>s. stringify_data rt (snap_data s))
         (callbacks (onSnapshot_frontend rt docRef f0 (map TimerFires envs)))
     = remdups_adj
         (map (\<lambda>f. stringify_data rt (snap_data (projr (getDoc BACKEND_URL_frontend f docRef))))
            (f0 # envs))
   \<and> distinct_adj (map (\<lambda>s. stringify_data rt (snap_data s))
         (callbacks (onSnapshot_frontend rt docRef f0 (map TimerFires envs))))
   \<and> (\<forall>e \<in> set (onSnapshot_frontend rt docRef f0 ts).
         (\<exists>s. e = Callback s) \<or> e = SetTimeout 2000)
   \<and> (\<exists>es. onSnapshot_admin docRef f0 (map TimerFires envs) = SetInterval 2000 # es
           \<and> es = map (\<lambda>f. Callback (projr (getDoc BACKEND_URL_admin f docRef))) (f0 # envs))"
proof -
  let ?ser = "\<lambda>s. stringify_data rt (snap_data s)"
  let ?snap = "\<lambda>f. projr (getDoc BACKEND_URL_frontend f docRef)"
  have first: "\<exists>rest. callbacks (onSnapshot_frontend rt docRef f0 ts) = ?snap f0 # rest"
    by (simp add: onSnapshot_frontend_first)
  have eq: "map ?ser (callbacks (onSnapshot_frontend rt docRef f0 (map TimerFires envs)))
      = remdups_adj (map (\<lambda>f. ?ser (?snap f)) (f0 # envs))"
    using polls_frontend_remdups[of "\<lparr>isActive = True, lastJson = ?ser (?snap f0)\<rparr>" rt docRef envs]
      remdups_adj_hd_tl[of "?ser (?snap f0)"]
    by (simp add: onSnapshot_frontend_first)
  have adj: "distinct_adj
      (map ?ser (callbacks (onSnapshot_frontend rt docRef f0 (map TimerFires envs))))"
    unfolding eq by (rule distinct_adj_remdups_adj)
  have timers: "\<forall>e \<in> set (onSnapshot_frontend rt docRef f0 ts).
      (\<exists>s. e = Callback s) \<or> e = SetTimeout 2000"
    using onSnapshot_frontend_effects by blast
  have "polls_admin docRef True (map TimerFires envs)
      = map (\<lambda>f. Callback (projr (getDoc BACKEND_URL_admin f docRef))) envs"
    by (induction envs) (simp_all add: fetchData_admin_callback)
  then have admin: "\<exists>es. onSnapshot_admin docRef f0 (map TimerFires envs) = SetInterval 2000 # es
      \<and> es = map (\<lambda>f. Callback (projr (getDoc BACKEND_URL_admin f docRef))) (f0 # envs)"
    by (simp add: onSnapshot_admin_def fetchData_admin_callback)
  from first eq adj timers admin show ?thesis by blast
qed

theorem watcher_callbacks_witness:
  "map (\<lambda>s. stringify_data example_runtime (snap_data s))
     (callbacks (onSnapshot_frontend example_runtime (doc [''sites'', ''s'']) steady_network
        (map TimerFires [steady_network, changed_network, changed_network])))
     = [JsString (plain_stringify (JObj [(''title'', JStr ''a'')])),
        JsString (plain_stringify (JObj [(''title'', JStr ''b'')]))]
   \<and> length (onSnapshot_admin (doc [''sites'', ''s'']) steady_network
        (map TimerFires [steady_network, changed_network, changed_network])) = 5"
  using watcher_callbacks[of example_runtime "doc [''sites'', ''s'']" steady_network "[]"
      "[steady_network, changed_network, changed_network]"]
  by (simp add: getDoc_def getDoc_try_def steady_network_def changed_network_def response_ok_def
      stringify_data_def example_runtime_def)

text \<open>
  Claim C1 as stated fails for the admin adapter: polled twice against an unchanged
  document, it calls back twice with the same content.
\<close>

theorem admin_repeats_identical_content:
  "callbacks (onSnapshot_admin (doc [''sites'', ''s'']) steady_network [TimerFires steady_network])
     = [\<lparr>snap_exists = True, snap_data = Some (JObj [(''title'', JStr ''a'')]), snap_id = Some ''s''\<rparr>,
        \<lparr>snap_exists = True, snap_data = Some (JObj [(''title'', JStr ''a'')]), snap_id = Some ''s''\<rparr>]
   \<and> \<not> distinct_adj (map (\<lambda>s. stringify_data example_runtime (snap_data s))
          (callbacks (onSnapshot_admin (doc [''sites'', ''s'']) steady_network
             [TimerFires steady_network])))"
  by (simp add: onSnapshot_admin_def fetchData_admin_def getDoc_def getDoc_try_def
      steady_network_def response_ok_def doc_def)

section \<open>Properties of the Gemini client\<close>

text \<open>The loop has at most three iterations; here they are, one by one.\<close>

lemma loop_3: "callGeminiAPI_loop env (Suc (Suc (Suc 0))) lastError =
    (Inl (case lastError of Some e \<Rightarrow> e | None \<Rightarrow> Error ''Failed after multiple retries''), [])"
  by (simp add: callGeminiAPI_loop.simps MAX_RETRIES_def)

lemma loop_2: "callGeminiAPI_loop env (Suc (Suc 0)) lastError =
    (case try_block (Suc (Suc 0)) (env (Suc (Suc 0))) of
       Continue delay \<Rightarrow>
         (Inl (case lastError of Some e \<Rightarrow> e | None \<Rightarrow> Error ''Failed after multiple retries''),
          [Fetch, Sleep delay])
     | Return text \<Rightarrow> (Inr text, [Fetch])
     | Throw e \<Rightarrow> (Inl e, [Fetch]))"
  by (subst callGeminiAPI_loop.simps)
     (simp add: loop_3 MAX_RETRIES_def split: attempt_outcome.splits)

lemma loop_1: "callGeminiAPI_loop env (Suc 0) lastError =
    (case try_block (Suc 0) (env (Suc 0)) of
       Continue delay \<Rightarrow>
         (case callGeminiAPI_loop env (Suc (Suc 0)) lastError of
            (res, es) \<Rightarrow> (res, Fetch # Sleep delay # es))
     | Return text \<Rightarrow> (Inr text, [Fetch])
     | Throw e \<Rightarrow>
         if str_includes (message e) ''429'' then
           (case callGeminiAPI_loop env (Suc (Suc 0)) (Some e) of
              (res, es) \<Rightarrow> (res, Fetch # Sleep (backoff_delay (Suc 0)) # es))
         else (case callGeminiAPI_loop env (Suc (Suc 0)) (Some e) of
              (res, es) \<Rightarrow> (res, Fetch # es)))"
  by (subst callGeminiAPI_loop.simps)
     (simp add: MAX_RETRIES_def split: attempt_outcome.splits)

lemma loop_0: "callGeminiAPI_loop env 0 lastError =
    (case try_block 0 (env 0) of
       Continue delay \<Rightarrow>
         (case callGeminiAPI_loop env (Suc 0) lastError of
            (res, es) \<Rightarrow> (res, Fetch # Sleep delay # es))
     | Return text \<Rightarrow> (Inr text, [Fetch])
     | Throw e \<Rightarrow>
         if str_includes (message e) ''429'' then
           (case callGeminiAPI_loop env (Suc 0) (Some e) of
              (res, es) \<Rightarrow> (res, Fetch # Sleep (backoff_delay 0) # es))
         else (case callGeminiAPI_loop env (Suc 0) (Some e) of (res, es) \<Rightarrow> (res, Fetch # es)))"
  by (subst callGeminiAPI_loop.simps)
     (simp add: MAX_RETRIES_def split: attempt_outcome.splits)

lemmas loop_unrolled = loop_0 loop_1 loop_2

lemma try_block_Continue: "try_block i r = Continue d \<Longrightarrow> d = backoff_delay i \<and> rate_limited r"
  by (auto simp: try_block_def rate_limited_def
      split: gemini_fetch.splits if_splits gemini_body.splits option.splits)

lemma try_block_rate_limited: "rate_limited r \<Longrightarrow> try_block i r = Continue (backoff_delay i)"
  by (auto simp: try_block_def rate_limited_def split: gemini_fetch.splits)

lemma backoff_values:
  "backoff_delay 0 = 2000" "backoff_delay (Suc 0) = 4000" "backoff_delay (Suc (Suc 0)) = 8000"
  by (simp_all add: backoff_delay_def INITIAL_DELAY_MS_def)

lemma fetch_cap:
  "count_list (snd (callGeminiAPI_loop env 0 None)) Fetch \<le> 3
   \<and> 1 \<le> count_list (snd (callGeminiAPI_loop env 0 None)) Fetch"
  by (simp add: loop_unrolled split: attempt_outcome.splits prod.splits)

lemma sleeps_backoff:
  "Sleep d \<in> set (snd (callGeminiAPI_loop env 0 None)) \<Longrightarrow> d \<in> {2000, 4000, 8000}"
  by (auto simp: loop_unrolled backoff_values dest!: try_block_Continue
      split: attempt_outcome.splits prod.splits if_splits)

lemma all_rate_limited:
  "rate_limited (env 0) \<Longrightarrow> rate_limited (env 1) \<Longrightarrow> rate_limited (env 2) \<Longrightarrow>
   callGeminiAPI_loop env 0 None =
     (Inl (Error ''Failed after multiple retries''),
      [Fetch, Sleep 2000, Fetch, Sleep 4000, Fetch, Sleep 8000])"
  by (simp add: loop_unrolled try_block_rate_limited backoff_values numeral_2_eq_2)

lemma all_thrown:
  assumes "try_block 0 (env 0) = Throw e0" "try_block 1 (env 1) = Throw e1"
    "try_block 2 (env 2) = Throw e2"
  shows "fst (callGeminiAPI_loop env 0 None) = Inl e2
     \<and> count_list (snd (callGeminiAPI_loop env 0 None)) Fetch = 3"
  using assms by (simp add: loop_unrolled numeral_2_eq_2 split: prod.splits)

lemma other_error_retried:
  assumes "try_block 0 (env 0) = Throw e" "\<not> str_includes (message e) ''429''"
  shows "take 2 (snd (callGeminiAPI_loop env 0 None)) = [Fetch, Fetch]"
  using assms by (simp add: loop_unrolled numeral_2_eq_2 split: prod.splits attempt_outcome.splits)

lemma returned_first:
  assumes "try_block 0 (env 0) = Return text"
  shows "callGeminiAPI_loop env 0 None = (Inr text, [Fetch])"
  using assms by (simp add: loop_0)

text \<open>
  Some consequences, with an API key configured: \<open>callGeminiAPI\<close> sends between one and
  three requests; every sleep lasts 2000, 4000 or 8000 ms; three rate-limited attempts end
  in \<open>Failed after multiple retries\<close> after sleeps of 2000, 4000 and 8000 ms; a first
  attempt that throws without \<open>429\<close> in its message is followed at once by a second
  request; three throwing attempts end in the error of the third; a first attempt that
  yields text returns it after one request.
\<close>

lemma callGeminiAPI_retry_policy:
  assumes "key \<noteq> []"
  shows "1 \<le> count_list (snd (callGeminiAPI (Some key) env)) Fetch
       \<and> count_list (snd (callGeminiAPI (Some key) env)) Fetch \<le> MAX_RETRIES
       \<and> (\<forall>d. Sleep d \<in> set (snd (callGeminiAPI (Some key) env)) \<longrightarrow> d \<in> {2000, 4000, 8000})
       \<and> (rate_limited (env 0) \<and> rate_limited (env 1) \<and> rate_limited (env 2) \<longrightarrow>
            callGeminiAPI (Some key) env =
              (Inl (Error ''Failed after multiple retries''),
               [Fetch, Sleep 2000, Fetch, Sleep 4000, Fetch, Sleep 8000]))
       \<and> (\<forall>e. try_block 0 (env 0) = Throw e \<and> \<not> str_includes (message e) ''429'' \<longrightarrow>
            take 2 (snd (callGeminiAPI (Some key) env)) = [Fetch, Fetch])
       \<and> (\<forall>e0 e1 e2. try_block 0 (env 0) = Throw e0 \<and> try_block 1 (env 1) = Throw e1
              \<and> try_block 2 (env 2) = Throw e2 \<longrightarrow>
            fst (callGeminiAPI (Some key) env) = Inl e2
            \<and> count_list (snd (callGeminiAPI (Some key) env)) Fetch = 3)
       \<and> (\<forall>text. try_block 0 (env 0) = Return text \<longrightarrow>
            callGeminiAPI (Some key) env = (Inr text, [Fetch]))"
proof -
  have c: "callGeminiAPI (Some key) env = callGeminiAPI_loop env 0 None"
    using assms by (simp add: callGeminiAPI_def)
  show ?thesis
    unfolding c
    using fetch_cap[of env] sleeps_backoff[of _ env] all_rate_limited[of env]
      other_error_retried[of env] all_thrown[of env] returned_first[of env]
    by (simp add: MAX_RETRIES_def)
qed

lemma callGeminiAPI_rate_limited_example:
  "callGeminiAPI (Some ''k'') (\<lambda>i. GeminiResponse 429 (Body None None)) =
     (Inl (Error ''Failed after multiple retries''),
      [Fetch, Sleep 2000, Fetch, Sleep 4000, Fetch, Sleep 8000])
   \<and> count_list (snd (callGeminiAPI (Some ''k'') (\<lambda>i. GeminiResponse 429 (Body None None)))) Fetch
       \<le> MAX_RETRIES"
  using callGeminiAPI_retry_policy[of "''k''" "\<lambda>i. GeminiResponse 429 (Body None None)"]
  by (simp add: rate_limited_def MAX_RETRIES_def)

text \<open>
  Claim C4 (a 4xx response other than 429 is never retried, its error is thrown at once)
  at a server that answers every request with status 400: the \<open>catch\<close> clause records
  the error and, having no \<open>throw\<close>, lets the loop go on, so the same request is sent
  three times, without any delay, before \<open>Gemini API error: 400\<close> is thrown.
\<close>

theorem bad_request_is_retried:
  "callGeminiAPI (Some ''k'') (\<lambda>i. GeminiResponse 400 (Body None None))
     = (Inl (Error ''Gemini API error: 400''), [Fetch, Fetch, Fetch])"
  by (simp add: callGeminiAPI_def callGeminiAPI_loop.simps MAX_RETRIES_def try_block_def
      response_ok_def api_error_message_def show_nat.simps digit_def)

section \<open>Properties of the document summarizer\<close>

lemma getContextLimit_ge: "16385 \<le> getContextLimit config"
  by (simp add: getContextLimit_def Let_def)

lemma maxChunkTokens_ge: "4096 \<le> maxChunkTokens_of config"
  using getContextLimit_ge[of config] by (simp add: maxChunkTokens_of_def)

lemma split_loop_Some:
  assumes "0 < n"
  shows "\<exists>cs. split_loop n s acc = Some (acc @ cs) \<and> concat cs = s
           \<and> (\<forall>c \<in> set cs. length c \<le> n)
           \<and> (s = [] \<longrightarrow> cs = [])
           \<and> (s \<noteq> [] \<longrightarrow> cs \<noteq> [] \<and> (length cs - 1) * n < length s)"
proof (induction "length s" arbitrary: s acc rule: less_induct)
  case less
  show ?case
  proof (cases "s = []")
    case True
    then show ?thesis by (subst split_loop.simps) simp
  next
    case False
    then have shorter: "length (drop n s) < length s" using assms by simp
    from less[OF shorter, of "acc @ [take n s]"]
    obtain cs where cs: "split_loop n (drop n s) (acc @ [take n s]) = Some ((acc @ [take n s]) @ cs)"
      "concat cs = drop n s" "\<forall>c \<in> set cs. length c \<le> n"
      "drop n s = [] \<longrightarrow> cs = []"
      "drop n s \<noteq> [] \<longrightarrow> cs \<noteq> [] \<and> (length cs - 1) * n < length (drop n s)"
      by blast
    have step: "split_loop n s acc = Some (acc @ (take n s # cs))"
      using False cs(1) by (subst split_loop.simps) simp
    have cat: "concat (take n s # cs) = s" using cs(2) by simp
    have len: "\<forall>c \<in> set (take n s # cs). length c \<le> n" using cs(3) by simp
    have cnt: "(length (take n s # cs) - 1) * n < length s"
    proof (cases "drop n s = []")
      case True
      with cs(4) False show ?thesis by simp
    next
      case False
      with cs(5) obtain k where k: "length cs = Suc k" "k * n < length (drop n s)"
        by (cases cs) auto
      from False have "n < length s" by simp
      with k show ?thesis by simp
    qed
    from step cat len cnt False show ?thesis by blast
  qed
qed

lemma summarizeSingleChunk_events:
  "e \<in> set (snd (summarizeSingleChunk ask c t config)) \<Longrightarrow> e = LlmCall c t (max_tokens t)"
  by (auto simp: summarizeSingleChunk_def summarizeSingleChunk_try_def Let_def
      split: option.splits llm_outcome.splits)

lemma summarize_chunks_fst:
  "fst (summarize_chunks ask config t n i cs)
   = map (\<lambda>c. fst (summarizeSingleChunk ask c t config)) cs"
  by (induction cs arbitrary: i) (simp_all add: case_prod_beta)

lemma summarize_chunks_events:
  "e \<in> set (snd (summarize_chunks ask config t n i cs)) \<Longrightarrow>
   (\<exists>j. e = Report (SummarizingChunk j n)) \<or> (\<exists>c \<in> set cs. e = LlmCall c t (max_tokens t))"
proof (induction cs arbitrary: i)
  case Nil
  then show ?case by simp
next
  case (Cons c cs)
  then show ?case
    using summarizeSingleChunk_events[of e ask c t config]
    by (auto simp: case_prod_beta)
qed

lemma length_join:
  "length (join sep xs) = sum_list (map length xs) + length sep * (length xs - 1)"
  by (induction sep xs rule: join.induct) auto

lemma sdfc_fits:
  "estimateTokenCount text \<le> targetTokens \<Longrightarrow>
   summarizeDocumentForContext ask text targetTokens config = Some (text, [])"
  by (subst summarizeDocumentForContext.simps) simp

lemma sdfc_single:
  assumes "\<not> estimateTokenCount text \<le> targetTokens"
    and "estimateTokenCount text < maxChunkTokens_of config"
  shows "summarizeDocumentForContext ask text targetTokens config
     = Some (fst (summarizeSingleChunk ask text targetTokens config),
             Report (Analyzing ((estimateTokenCount text + 500) div 1000))
             # Report SummarizingDocument
             # snd (summarizeSingleChunk ask text targetTokens config))"
  using assms
  by (subst summarizeDocumentForContext.simps)
     (simp add: Let_def maxChunkTokens_of_def split: prod.splits)

lemma sdfc_chunked:
  assumes "\<not> estimateTokenCount text \<le> targetTokens"
    and "\<not> estimateTokenCount text < maxChunkTokens_of config"
    and "split_loop (maxChunkTokens_of config * 4) text [] = Some chunks"
  shows "summarizeDocumentForContext ask text targetTokens config
     = (let evs = Report (Analyzing ((estimateTokenCount text + 500) div 1000))
                  # Report (Splitting (length chunks))
                  # snd (summarize_chunks ask config
                          (min (maxChunkTokens_of config div 10) (targetTokens div length chunks))
                          (length chunks) 0 chunks);
            combined = combined_summary ask config targetTokens chunks
        in if targetTokens < estimateTokenCount combined then
             Option.bind (summarizeDocumentForContext ask combined targetTokens config)
               (\<lambda>r. Some (fst r, evs @ Report AdditionalPass # snd r))
           else Some (combined, evs @ [Report Complete]))"
  using assms
  by (subst summarizeDocumentForContext.simps)
     (simp add: Let_def maxChunkTokens_of_def combined_summary_def summarize_chunks_fst)


text \<open>The \<open>while\<close> loop computes the cut into fixed-size chunks.\<close>

lemma chunks_of_Nil: "0 < n \<Longrightarrow> chunks_of n [] = []"
proof -
  assume "0 < n"
  then have "(n - 1) div n = 0" by (intro div_less) simp
  then have "[0..<(length ([]::string) + n - 1) div n] = []" by simp
  then show ?thesis unfolding chunks_of_def by (simp only: list.map)
qed

lemma chunk_count_step:
  assumes "0 < n" "0 < (l::nat)"
  shows "(l + n - 1) div n = Suc ((l - n + n - 1) div n)"
proof (cases "l \<le> n")
  case True
  have "(l + n - 1) div n = 1"
    by (rule div_nat_eqI) (use True assms in simp_all)
  moreover have "(l - n + n - 1) div n = 0"
    using True assms by simp
  ultimately show ?thesis by simp
next
  case False
  define m where "m = l - n + n - 1"
  have "l + n - 1 = m + n" using False assms by (simp add: m_def)
  moreover have "(m + n) div n = Suc (m div n)"
    using assms(1) div_add_self2[of n m] by simp
  ultimately show ?thesis by (simp add: m_def)
qed

lemma upt_0_Suc: "[0..<Suc k] = 0 # map Suc [0..<k]"
  by (simp only: map_Suc_upt upt_conv_Cons[of 0 "Suc k"] zero_less_Suc)

lemma chunks_of_step:
  assumes "0 < n" "s \<noteq> []"
  shows "chunks_of n s = take n s # chunks_of n (drop n s)"
proof -
  let ?k = "(length (drop n s) + n - 1) div n"
  have cnt: "(length s + n - 1) div n = Suc ?k"
    using chunk_count_step[OF assms(1), of "length s"] assms(2) by simp
  have shift: "\<And>i. take n (drop (Suc i * n) s) = take n (drop (i * n) (drop n s))"
    by (simp add: add.commute)
  have "chunks_of n s = map (\<lambda>i. take n (drop (i * n) s)) (0 # map Suc [0..<?k])"
    unfolding chunks_of_def cnt upt_0_Suc ..
  also have "\<dots> = take n s # map (\<lambda>i. take n (drop (Suc i * n) s)) [0..<?k]"
    by (simp add: o_def del: mult_Suc)
  also have "\<dots> = take n s # chunks_of n (drop n s)"
    unfolding chunks_of_def shift ..
  finally show ?thesis .
qed

lemma split_loop_chunks:
  assumes "0 < n"
  shows "split_loop n s acc = Some (acc @ chunks_of n s)"
proof (induction "length s" arbitrary: s acc rule: less_induct)
  case less
  show ?case
  proof (cases "s = []")
    case True
    then show ?thesis using assms by (subst split_loop.simps) (simp add: chunks_of_Nil)
  next
    case False
    then have "length (drop n s) < length s" using assms by simp
    from less[OF this, of "acc @ [take n s]"] False show ?thesis
      by (subst split_loop.simps) (simp add: chunks_of_step[OF assms False])
  qed
qed

lemma ssc_result:
  "summarizeSingleChunk ask c t config = (chunk_result ask config t c, chunk_events config t c)"
  by (auto simp: summarizeSingleChunk_def summarizeSingleChunk_try_def chunk_result_def
      chunk_events_def call_fails_def completion_text_def Let_def
      split: option.splits llm_outcome.splits)

lemma summarize_chunks_explicit:
  "summarize_chunks ask config t n i cs
   = (map (chunk_result ask config t) cs,
      concat (map (\<lambda>(j, c). Report (SummarizingChunk (Suc j) n) # chunk_events config t c)
                (enumerate i cs)))"
  by (induction cs arbitrary: i) (simp_all add: ssc_result)

text \<open>
  One pass of \<open>summarizeDocumentForContext\<close> on a text at or above the chunk limit, for any
  model: the chunks, their results joined with blank lines, and the return or the recursion
  on the concatenation.
\<close>

lemma sdfc_step:
  assumes "\<not> estimateTokenCount src \<le> targetTokens"
    and "\<not> estimateTokenCount src < getContextLimit config div 4"
  shows "summarizeDocumentForContext ask src targetTokens config
     = (let chunks = chunks_of (getContextLimit config div 4 * 4) src;
            t = min (getContextLimit config div 4 div 10) (targetTokens div length chunks);
            combined = join [CHR 0x0A, CHR 0x0A] (map (chunk_result ask config t) chunks);
            evs = pass_events config (estimateTokenCount src) t chunks
        in if targetTokens < estimateTokenCount combined then
             map_option (\<lambda>r. (fst r, evs @ Report AdditionalPass # snd r))
               (summarizeDocumentForContext ask combined targetTokens config)
           else Some (combined, evs @ [Report Complete]))"
proof -
  have pos: "0 < getContextLimit config div 4 * 4"
    using maxChunkTokens_ge[of config] by (simp add: maxChunkTokens_of_def)
  have split: "split_loop (getContextLimit config div 4 * 4) src []
      = Some (chunks_of (getContextLimit config div 4 * 4) src)"
    using split_loop_chunks[OF pos, of src "[]"] by simp
  have bind_map: "\<And>x f. Option.bind x (\<lambda>r. Some (f r)) = map_option f x"
    by (case_tac x) simp_all
  show ?thesis
    using assms
    by (subst summarizeDocumentForContext.simps)
       (simp add: Let_def split summarize_chunks_explicit pass_events_def bind_map)
qed

lemma sdfc_single_step:
  assumes "\<not> estimateTokenCount src \<le> targetTokens"
    and "estimateTokenCount src < getContextLimit config div 4"
  shows "summarizeDocumentForContext ask src targetTokens config
     = Some (chunk_result ask config targetTokens src,
             Report (Analyzing ((estimateTokenCount src + 500) div 1000))
             # Report SummarizingDocument # chunk_events config targetTokens src)"
  using assms
  by (subst summarizeDocumentForContext.simps) (simp add: Let_def ssc_result)

lemma estimate_le: "length c \<le> m * 4 \<Longrightarrow> estimateTokenCount c \<le> m"
  by (auto simp: estimateTokenCount_def)

lemma no_pass_in_chunk_events:
  "Report AdditionalPass \<notin> set (snd (summarize_chunks ask config t n i cs))"
  using summarize_chunks_events[of "Report AdditionalPass" ask config t n i cs] by auto

lemma no_pass_in_single_events:
  "Report AdditionalPass \<notin> set (snd (summarizeSingleChunk ask c t config))"
  using summarizeSingleChunk_events[of "Report AdditionalPass" ask c t config] by auto

text \<open>
  Termination of \<open>summarizeDocumentForContext\<close> for a model under which a chunked pass
  always yields a shorter text, with what is then known of the result.
\<close>

lemma sdfc_terminates:
  assumes shrink: "\<And>src chunks.
      targetTokens < estimateTokenCount src \<Longrightarrow>
      maxChunkTokens_of config \<le> estimateTokenCount src \<Longrightarrow>
      split_loop (maxChunkTokens_of config * 4) src [] = Some chunks \<Longrightarrow>
      length (combined_summary ask config targetTokens chunks) < length src"
  shows "\<exists>summary evs.
      summarizeDocumentForContext ask src targetTokens config = Some (summary, evs)
      \<and> (estimateTokenCount summary \<le> targetTokens
         \<or> (\<exists>t'. targetTokens < estimateTokenCount t'
               \<and> estimateTokenCount t' < maxChunkTokens_of config
               \<and> summary = fst (summarizeSingleChunk ask t' targetTokens config)))
      \<and> count_list evs (Report AdditionalPass) \<le> length src
      \<and> (\<forall>c t m. LlmCall c t m \<in> set evs \<longrightarrow> estimateTokenCount c \<le> maxChunkTokens_of config)"
proof (induction "length src" arbitrary: src rule: less_induct)
  case less
  let ?M = "maxChunkTokens_of config"
  consider (fits) "estimateTokenCount src \<le> targetTokens"
    | (single) "\<not> estimateTokenCount src \<le> targetTokens" "estimateTokenCount src < ?M"
    | (chunked) "\<not> estimateTokenCount src \<le> targetTokens" "\<not> estimateTokenCount src < ?M"
    by blast
  then show ?case
  proof cases
    case fits
    then show ?thesis by (simp add: sdfc_fits)
  next
    case single
    let ?r = "summarizeSingleChunk ask src targetTokens config"
    have calls: "\<forall>c t m. LlmCall c t m \<in> set (snd ?r) \<longrightarrow> estimateTokenCount c \<le> ?M"
    proof (intro allI impI)
      fix c t m
      assume "LlmCall c t m \<in> set (snd ?r)"
      from summarizeSingleChunk_events[OF this] have "c = src" by simp
      with single(2) show "estimateTokenCount c \<le> ?M" by simp
    qed
    have cnt: "count_list (Report (Analyzing ((estimateTokenCount src + 500) div 1000))
             # Report SummarizingDocument # snd ?r) (Report AdditionalPass) \<le> length src"
      using no_pass_in_single_events[of ask src targetTokens config]
      by (simp add: count_list_0_iff)
    have post: "\<exists>t'. targetTokens < estimateTokenCount t'
               \<and> estimateTokenCount t' < ?M
               \<and> fst ?r = fst (summarizeSingleChunk ask t' targetTokens config)"
      using single by (intro exI[of _ src]) simp
    have calls2: "\<forall>c t m. LlmCall c t m \<in> set (Report (Analyzing ((estimateTokenCount src + 500) div 1000))
             # Report SummarizingDocument # snd ?r) \<longrightarrow> estimateTokenCount c \<le> ?M"
      using calls by simp
    from sdfc_single[OF single, of ask] post cnt calls2 show ?thesis by blast
  next
    case chunked
    have pos: "0 < ?M * 4" using maxChunkTokens_ge[of config] by simp
    from split_loop_Some[OF pos, of src "[]"]
    obtain chunks where chunks: "split_loop (?M * 4) src [] = Some chunks"
      "\<forall>c \<in> set chunks. length c \<le> ?M * 4"
      by auto
    let ?t = "min (?M div 10) (targetTokens div length chunks)"
    let ?evs = "Report (Analyzing ((estimateTokenCount src + 500) div 1000))
                  # Report (Splitting (length chunks))
                  # snd (summarize_chunks ask config ?t (length chunks) 0 chunks)"
    let ?combined = "combined_summary ask config targetTokens chunks"
    have no_pass: "count_list ?evs (Report AdditionalPass) = 0"
      using no_pass_in_chunk_events by (simp add: count_list_0_iff)
    have calls: "\<forall>c t m. LlmCall c t m \<in> set ?evs \<longrightarrow> estimateTokenCount c \<le> ?M"
    proof (intro allI impI)
      fix c t m
      assume "LlmCall c t m \<in> set ?evs"
      then have "LlmCall c t m \<in> set (snd (summarize_chunks ask config ?t (length chunks) 0 chunks))"
        by simp
      from summarize_chunks_events[OF this] have "c \<in> set chunks" by auto
      with chunks(2) show "estimateTokenCount c \<le> ?M" by (simp add: estimate_le)
    qed
    have unfold: "summarizeDocumentForContext ask src targetTokens config
       = (if targetTokens < estimateTokenCount ?combined then
             Option.bind (summarizeDocumentForContext ask ?combined targetTokens config)
               (\<lambda>r. Some (fst r, ?evs @ Report AdditionalPass # snd r))
           else Some (?combined, ?evs @ [Report Complete]))"
      using sdfc_chunked[OF chunked chunks(1), of ask] by (simp add: Let_def)
    show ?thesis
    proof (cases "targetTokens < estimateTokenCount ?combined")
      case False
      with unfold no_pass calls show ?thesis by auto
    next
      case True
      have shorter: "length ?combined < length src"
        using shrink[OF _ _ chunks(1)] chunked by simp
      from less[OF shorter] obtain summary evs where
        rec: "summarizeDocumentForContext ask ?combined targetTokens config = Some (summary, evs)"
        and post: "estimateTokenCount summary \<le> targetTokens
           \<or> (\<exists>t'. targetTokens < estimateTokenCount t'
                 \<and> estimateTokenCount t' < ?M
                 \<and> summary = fst (summarizeSingleChunk ask t' targetTokens config))"
        and passes: "count_list evs (Report AdditionalPass) \<le> length ?combined"
        and calls': "\<forall>c t m. LlmCall c t m \<in> set evs \<longrightarrow> estimateTokenCount c \<le> ?M"
        by blast
      have res: "summarizeDocumentForContext ask src targetTokens config
          = Some (summary, ?evs @ Report AdditionalPass # evs)"
        using unfold True rec by simp
      have cnt: "count_list (?evs @ Report AdditionalPass # evs) (Report AdditionalPass)
          \<le> length src"
        using no_pass passes shorter by simp
      have all_calls: "\<forall>c t m. LlmCall c t m \<in> set (?evs @ Report AdditionalPass # evs)
          \<longrightarrow> estimateTokenCount c \<le> ?M"
      proof (intro allI impI)
        fix c t m
        assume "LlmCall c t m \<in> set (?evs @ Report AdditionalPass # evs)"
        then have "LlmCall c t m \<in> set ?evs \<or> LlmCall c t m \<in> set evs" by auto
        then show "estimateTokenCount c \<le> ?M" using calls calls' by blast
      qed
      from res post cnt all_calls show ?thesis by blast
    qed
  qed
qed

lemma halving_single:
  "openai config = Some oc \<Longrightarrow>
   summarizeSingleChunk halving_summarizer c t config
   = (take (length c div 2) c, [LlmCall c t (max_tokens t)])"
  by (simp add: summarizeSingleChunk_def summarizeSingleChunk_try_def halving_summarizer_def)

lemma sum_halves: "sum_list (map (\<lambda>c. length c div 2) cs) \<le> length (concat cs) div 2"
  by (induction cs) auto

lemma split_loop_facts:
  assumes "split_loop (maxChunkTokens_of config * 4) src [] = Some chunks" and "src \<noteq> []"
  shows "concat chunks = src \<and> chunks \<noteq> []
       \<and> (length chunks - 1) * (maxChunkTokens_of config * 4) < length src"
proof -
  have pos: "0 < maxChunkTokens_of config * 4" using maxChunkTokens_ge[of config] by simp
  from split_loop_Some[OF pos, of src "[]"] assms show ?thesis by auto
qed

lemma halving_shrinks:
  assumes oc: "openai config = Some oc"
    and big: "targetTokens < estimateTokenCount src"
    and split: "split_loop (maxChunkTokens_of config * 4) src [] = Some chunks"
  shows "length (combined_summary halving_summarizer config targetTokens chunks) < length src"
proof -
  from big have ne: "src \<noteq> []" by (auto simp: estimateTokenCount_def)
  from split_loop_facts[OF split ne]
  have cat: "concat chunks = src" and k: "(length chunks - 1) * (maxChunkTokens_of config * 4) < length src"
    by auto
  have "16384 \<le> maxChunkTokens_of config * 4" using maxChunkTokens_ge[of config] by simp
  then have "(length chunks - 1) * 16384 \<le> (length chunks - 1) * (maxChunkTokens_of config * 4)"
    by (rule mult_le_mono2)
  with k have k': "(length chunks - 1) * 16384 < length src" by linarith
  have "length (combined_summary halving_summarizer config targetTokens chunks)
      = sum_list (map (\<lambda>c. length c div 2) chunks) + 2 * (length chunks - 1)"
    by (simp add: combined_summary_def halving_single[OF oc] length_join o_def)
  also have "\<dots> \<le> length src div 2 + 2 * (length chunks - 1)"
    using sum_halves[of chunks] cat by simp
  also have "\<dots> < length src" using k' ne by (cases src) auto
  finally show ?thesis .
qed

lemma failing_single:
  assumes "openai config = None \<or> (\<forall>c t. ask c t = CallFails \<or> ask c t = ApiError)"
  shows "fst (summarizeSingleChunk ask c t config) = take (t * 4) c"
proof (cases "openai config")
  case None
  then show ?thesis by (simp add: summarizeSingleChunk_def summarizeSingleChunk_try_def)
next
  case (Some oc)
  with assms have "ask c t = CallFails \<or> ask c t = ApiError" by auto
  with Some show ?thesis
    by (auto simp: summarizeSingleChunk_def summarizeSingleChunk_try_def)
qed

lemma sum_list_bounded: "(\<And>x. x \<in> set xs \<Longrightarrow> f x \<le> b) \<Longrightarrow> sum_list (map f xs) \<le> length xs * b"
  by (induction xs) (auto simp: add_mono)

lemma failing_shrinks:
  assumes fail: "openai config = None \<or> (\<forall>c t. ask c t = CallFails \<or> ask c t = ApiError)"
    and big: "targetTokens < estimateTokenCount src"
    and full: "maxChunkTokens_of config \<le> estimateTokenCount src"
    and split: "split_loop (maxChunkTokens_of config * 4) src [] = Some chunks"
  shows "length (combined_summary ask config targetTokens chunks) < length src"
proof -
  let ?M = "maxChunkTokens_of config"
  let ?D = "?M div 10"
  let ?t = "min ?D (targetTokens div length chunks)"
  define k where "k = length chunks - 1"
  from big have ne: "src \<noteq> []" by (auto simp: estimateTokenCount_def)
  from split_loop_facts[OF split ne]
  have chunks_ne: "chunks \<noteq> []" and klt: "k * (?M * 4) < length src"
    by (auto simp: k_def)
  have n: "length chunks = Suc k" using chunks_ne by (cases chunks) (auto simp: k_def)
  have M: "4096 \<le> ?M" by (rule maxChunkTokens_ge)
  have D: "409 \<le> ?D" "10 * ?D \<le> ?M" using M by auto
  have L: "?M * 4 \<le> length src + 3" using full ne by (auto simp: estimateTokenCount_def)
  have "40 * ?D \<le> ?M * 4" using D(2) by simp
  then have "k * (40 * ?D) \<le> k * (?M * 4)" by (rule mult_le_mono2)
  moreover have "k * (40 * ?D) = 40 * (k * ?D)" by simp
  ultimately have kD: "40 * (k * ?D) < length src" using klt by linarith
  have "sum_list (map (\<lambda>c. length (take (?t * 4) c)) chunks) \<le> length chunks * (?D * 4)"
    by (rule sum_list_bounded) auto
  then have "length (combined_summary ask config targetTokens chunks)
      \<le> Suc k * (?D * 4) + 2 * k"
    by (simp add: combined_summary_def failing_single[OF fail] length_join o_def n)
  also have "\<dots> = 4 * (k * ?D) + 4 * ?D + 2 * k" by simp
  also have "\<dots> < length src"
  proof (cases k)
    case 0
    with L D show ?thesis by simp
  next
    case (Suc j)
    have "?D \<le> k * ?D" using Suc by simp
    moreover have "k \<le> k * ?D" using D(1) by simp
    ultimately show ?thesis using kD by linarith
  qed
  finally show ?thesis .
qed

lemma example_limit: "getContextLimit example_config = 128000"
  by (simp add: getContextLimit_def example_config_def toLowerCase_def to_lower_char_def)

text \<open>
  Claim C7. A text whose estimated token count is within the target is returned as it is,
  with no progress report and no model call, whatever the model and the configuration.
\<close>

theorem summarize_identity:
  "estimateTokenCount text \<le> targetTokens \<Longrightarrow>
   summarizeDocumentForContext ask text targetTokens config = Some (text, [])"
  by (rule sdfc_fits)

theorem summarize_identity_witness:
  "summarizeDocumentForContext halving_summarizer ''abcd'' 1 example_config = Some (''abcd'', [])"
  using summarize_identity[of "''abcd''" 1 halving_summarizer example_config]
  by (simp add: estimateTokenCount_def)

lemma estimate_half:
  assumes "estimateTokenCount t' < m"
  shows "estimateTokenCount (take (length t' div 2) t') \<le> m div 2"
  using assms by (auto simp: estimateTokenCount_def split: if_splits)

text \<open>
  With the halving summarizer the routine returns for every text and target; bounds on the
  number of passes, on the size of the result and on the size of the texts handed to the model.
\<close>

lemma halving_bounds:
  assumes "openai config = Some oc"
  shows "\<exists>summary evs.
      summarizeDocumentForContext halving_summarizer text targetTokens config = Some (summary, evs)
      \<and> count_list evs (Report AdditionalPass) \<le> length text
      \<and> (estimateTokenCount summary \<le> targetTokens
         \<or> (targetTokens < getContextLimit config div 4
            \<and> estimateTokenCount summary \<le> getContextLimit config div 4 div 2))
      \<and> (getContextLimit config div 4 \<le> targetTokens \<longrightarrow> estimateTokenCount summary \<le> targetTokens)
      \<and> (\<forall>c t m. LlmCall c t m \<in> set evs \<longrightarrow> estimateTokenCount c \<le> getContextLimit config div 4)"
proof -
  from sdfc_terminates[of targetTokens config halving_summarizer "text",
      OF halving_shrinks[OF assms]]
  obtain summary evs where
    res: "summarizeDocumentForContext halving_summarizer text targetTokens config = Some (summary, evs)"
    and post: "estimateTokenCount summary \<le> targetTokens
         \<or> (\<exists>t'. targetTokens < estimateTokenCount t'
               \<and> estimateTokenCount t' < maxChunkTokens_of config
               \<and> summary = fst (summarizeSingleChunk halving_summarizer t' targetTokens config))"
    and passes: "count_list evs (Report AdditionalPass) \<le> length text"
    and calls: "\<forall>c t m. LlmCall c t m \<in> set evs \<longrightarrow> estimateTokenCount c \<le> maxChunkTokens_of config"
    by blast
  have size: "estimateTokenCount summary \<le> targetTokens
         \<or> (targetTokens < maxChunkTokens_of config
            \<and> estimateTokenCount summary \<le> maxChunkTokens_of config div 2)"
    using post
  proof
    assume "estimateTokenCount summary \<le> targetTokens"
    then show ?thesis by simp
  next
    assume "\<exists>t'. targetTokens < estimateTokenCount t'
               \<and> estimateTokenCount t' < maxChunkTokens_of config
               \<and> summary = fst (summarizeSingleChunk halving_summarizer t' targetTokens config)"
    then obtain t' where t': "targetTokens < estimateTokenCount t'"
      "estimateTokenCount t' < maxChunkTokens_of config"
      "summary = take (length t' div 2) t'"
      by (auto simp: halving_single[OF assms])
    from estimate_half[OF t'(2)] t' show ?thesis by simp
  qed
  from res passes size calls show ?thesis
    unfolding maxChunkTokens_of_def by (intro exI[of _ summary] exI[of _ evs]) auto
qed

lemma halving_chunk_result:
  "openai config = Some oc \<Longrightarrow>
   chunk_result halving_summarizer config t c = take (length c div 2) c"
  by (simp add: chunk_result_def call_fails_def halving_summarizer_def completion_text_def)

lemma some_chunk_events:
  "openai config = Some oc \<Longrightarrow> chunk_events config t c = [LlmCall c t (max_tokens t)]"
  by (simp add: chunk_events_def)

lemma halving_pass_events:
  "openai config = Some oc \<Longrightarrow>
   pass_events config k t chunks =
     Report (Analyzing ((k + 500) div 1000))
     # Report (Splitting (length chunks))
     # concat (map (\<lambda>(j, c). [Report (SummarizingChunk (Suc j) (length chunks)),
                                  LlmCall c t (max_tokens t)])
                (enumerate 0 chunks))"
  by (simp add: pass_events_def some_chunk_events)

text \<open>
  Claim C5, amended. With the halving summarizer the routine returns for every text and
  target, after at most as many additional compression passes as the text has characters.
  The result is within the target whenever the target is at least the chunk limit, a
  quarter of the context window. For a smaller target the result is within the target or
  comes from a last pass that was a single model call, returned without a size check: then
  it is at most half the chunk limit. Every text handed to the model has an estimated
  token count within the chunk limit. The result is the text itself when it fits the
  target, and half the text, from one model call, when it exceeds the target but not the
  chunk limit. Otherwise the text is cut into chunks of four times the chunk limit in
  characters, each chunk is halved by its own model call, the halves are joined with blank
  lines, and the concatenation is returned when it fits the target and is else summarized
  again by the routine itself, whose result is the result.
\<close>

theorem halving_summarizer_result:
  assumes "openai config = Some oc"
  shows "\<exists>summary evs.
      summarizeDocumentForContext halving_summarizer text targetTokens config = Some (summary, evs)
      \<and> count_list evs (Report AdditionalPass) \<le> length text
      \<and> (estimateTokenCount summary \<le> targetTokens
         \<or> (targetTokens < getContextLimit config div 4
            \<and> estimateTokenCount summary \<le> getContextLimit config div 4 div 2))
      \<and> (getContextLimit config div 4 \<le> targetTokens \<longrightarrow> estimateTokenCount summary \<le> targetTokens)
      \<and> (\<forall>c t m. LlmCall c t m \<in> set evs \<longrightarrow> estimateTokenCount c \<le> getContextLimit config div 4)
      \<and> (estimateTokenCount text \<le> targetTokens \<longrightarrow> summary = text \<and> evs = [])
      \<and> (targetTokens < estimateTokenCount text
           \<and> estimateTokenCount text < getContextLimit config div 4 \<longrightarrow>
           summary = take (length text div 2) text
           \<and> evs = [Report (Analyzing ((estimateTokenCount text + 500) div 1000)),
                    Report SummarizingDocument,
                    LlmCall text targetTokens (max_tokens targetTokens)])
      \<and> (targetTokens < estimateTokenCount text
           \<and> getContextLimit config div 4 \<le> estimateTokenCount text \<longrightarrow>
           (let chunks = chunks_of (getContextLimit config div 4 * 4) text;
                t = min (getContextLimit config div 4 div 10) (targetTokens div length chunks);
                combined = join [CHR 0x0A, CHR 0x0A] (map (\<lambda>c. take (length c div 2) c) chunks);
                pre = Report (Analyzing ((estimateTokenCount text + 500) div 1000))
                      # Report (Splitting (length chunks))
                      # concat (map (\<lambda>(j, c). [Report (SummarizingChunk (Suc j) (length chunks)),
                                                   LlmCall c t (max_tokens t)])
                                 (enumerate 0 chunks))
            in (estimateTokenCount combined \<le> targetTokens \<longrightarrow>
                  summary = combined \<and> evs = pre @ [Report Complete])
             \<and> (targetTokens < estimateTokenCount combined \<longrightarrow>
                  (\<exists>evs'. summarizeDocumentForContext halving_summarizer combined targetTokens config
                           = Some (summary, evs')
                         \<and> evs = pre @ Report AdditionalPass # evs'))))"
proof -
  from halving_bounds[OF assms, of "text" targetTokens]
  obtain summary evs where
    res: "summarizeDocumentForContext halving_summarizer text targetTokens config = Some (summary, evs)"
    and bounds: "count_list evs (Report AdditionalPass) \<le> length text"
      "estimateTokenCount summary \<le> targetTokens
         \<or> (targetTokens < getContextLimit config div 4
            \<and> estimateTokenCount summary \<le> getContextLimit config div 4 div 2)"
      "getContextLimit config div 4 \<le> targetTokens \<longrightarrow> estimateTokenCount summary \<le> targetTokens"
      "\<forall>c t m. LlmCall c t m \<in> set evs \<longrightarrow> estimateTokenCount c \<le> getContextLimit config div 4"
    by blast
  have fits: "estimateTokenCount text \<le> targetTokens \<longrightarrow> summary = text \<and> evs = []"
    using res by (auto simp: sdfc_fits)
  have single: "targetTokens < estimateTokenCount text
           \<and> estimateTokenCount text < getContextLimit config div 4 \<longrightarrow>
           summary = take (length text div 2) text
           \<and> evs = [Report (Analyzing ((estimateTokenCount text + 500) div 1000)),
                    Report SummarizingDocument,
                    LlmCall text targetTokens (max_tokens targetTokens)]"
  proof
    assume a: "targetTokens < estimateTokenCount text
           \<and> estimateTokenCount text < getContextLimit config div 4"
    then have "\<not> estimateTokenCount text \<le> targetTokens" by simp
    from sdfc_single_step[OF this, of config halving_summarizer] a res
    show "summary = take (length text div 2) text
           \<and> evs = [Report (Analyzing ((estimateTokenCount text + 500) div 1000)),
                    Report SummarizingDocument,
                    LlmCall text targetTokens (max_tokens targetTokens)]"
      by (simp add: halving_chunk_result[OF assms] some_chunk_events[OF assms])
  qed
  have chunked: "targetTokens < estimateTokenCount text
           \<and> getContextLimit config div 4 \<le> estimateTokenCount text \<longrightarrow>
           (let chunks = chunks_of (getContextLimit config div 4 * 4) text;
                t = min (getContextLimit config div 4 div 10) (targetTokens div length chunks);
                combined = join [CHR 0x0A, CHR 0x0A] (map (\<lambda>c. take (length c div 2) c) chunks);
                pre = Report (Analyzing ((estimateTokenCount text + 500) div 1000))
                      # Report (Splitting (length chunks))
                      # concat (map (\<lambda>(j, c). [Report (SummarizingChunk (Suc j) (length chunks)),
                                                   LlmCall c t (max_tokens t)])
                                 (enumerate 0 chunks))
            in (estimateTokenCount combined \<le> targetTokens \<longrightarrow>
                  summary = combined \<and> evs = pre @ [Report Complete])
             \<and> (targetTokens < estimateTokenCount combined \<longrightarrow>
                  (\<exists>evs'. summarizeDocumentForContext halving_summarizer combined targetTokens config
                           = Some (summary, evs')
                         \<and> evs = pre @ Report AdditionalPass # evs')))"
  proof
    assume a: "targetTokens < estimateTokenCount text
           \<and> getContextLimit config div 4 \<le> estimateTokenCount text"
    then have n1: "\<not> estimateTokenCount text \<le> targetTokens"
      and n2: "\<not> estimateTokenCount text < getContextLimit config div 4" by simp_all
    have hr: "chunk_result halving_summarizer config = (\<lambda>t c. take (length c div 2) c)"
      by (intro ext) (rule halving_chunk_result[OF assms])
    define chunks where "chunks = chunks_of (getContextLimit config div 4 * 4) text"
    define t where "t = min (getContextLimit config div 4 div 10) (targetTokens div length chunks)"
    define combined where
      "combined = join [CHR 0x0A, CHR 0x0A] (map (\<lambda>c. take (length c div 2) c) chunks)"
    define pre where
      "pre = Report (Analyzing ((estimateTokenCount text + 500) div 1000))
                      # Report (Splitting (length chunks))
                      # concat (map (\<lambda>(j, c). [Report (SummarizingChunk (Suc j) (length chunks)),
                                                   LlmCall c t (max_tokens t)])
                                 (enumerate 0 chunks))"
    have eq: "summarizeDocumentForContext halving_summarizer text targetTokens config
        = (if targetTokens < estimateTokenCount combined then
             map_option (\<lambda>r. (fst r, pre @ Report AdditionalPass # snd r))
               (summarizeDocumentForContext halving_summarizer combined targetTokens config)
           else Some (combined, pre @ [Report Complete]))"
      using sdfc_step[OF n1 n2, of halving_summarizer]
      by (simp add: Let_def hr halving_pass_events[OF assms] chunks_def t_def combined_def pre_def)
    have c1: "estimateTokenCount combined \<le> targetTokens \<longrightarrow>
                  summary = combined \<and> evs = pre @ [Report Complete]"
      using eq res by auto
    have c2: "targetTokens < estimateTokenCount combined \<longrightarrow>
                  (\<exists>evs'. summarizeDocumentForContext halving_summarizer combined targetTokens config
                           = Some (summary, evs')
                         \<and> evs = pre @ Report AdditionalPass # evs')"
    proof
      assume "targetTokens < estimateTokenCount combined"
      with eq res have "map_option (\<lambda>r. (fst r, pre @ Report AdditionalPass # snd r))
               (summarizeDocumentForContext halving_summarizer combined targetTokens config)
          = Some (summary, evs)" by simp
      then obtain r where r: "summarizeDocumentForContext halving_summarizer combined targetTokens config = Some r"
        "fst r = summary" "pre @ Report AdditionalPass # snd r = evs"
        by auto
      then show "\<exists>evs'. summarizeDocumentForContext halving_summarizer combined targetTokens config
                           = Some (summary, evs')
                         \<and> evs = pre @ Report AdditionalPass # evs'"
        by (intro exI[of _ "snd r"]) (cases r, simp)
    qed
    from c1 c2 show "(let chunks = chunks_of (getContextLimit config div 4 * 4) text;
                t = min (getContextLimit config div 4 div 10) (targetTokens div length chunks);
                combined = join [CHR 0x0A, CHR 0x0A] (map (\<lambda>c. take (length c div 2) c) chunks);
                pre = Report (Analyzing ((estimateTokenCount text + 500) div 1000))
                      # Report (Splitting (length chunks))
                      # concat (map (\<lambda>(j, c). [Report (SummarizingChunk (Suc j) (length chunks)),
                                                   LlmCall c t (max_tokens t)])
                                 (enumerate 0 chunks))
            in (estimateTokenCount combined \<le> targetTokens \<longrightarrow>
                  summary = combined \<and> evs = pre @ [Report Complete])
             \<and> (targetTokens < estimateTokenCount combined \<longrightarrow>
                  (\<exists>evs'. summarizeDocumentForContext halving_summarizer combined targetTokens config
                           = Some (summary, evs')
                         \<and> evs = pre @ Report AdditionalPass # evs')))"
      unfolding Let_def chunks_def t_def combined_def pre_def by (rule conjI)
  qed
  from res bounds fits single chunked show ?thesis by blast
qed

lemma small_limit: "getContextLimit small_config = 16385"
  by (simp add: getContextLimit_def small_config_def toLowerCase_def to_lower_char_def)

lemma small_openai:
  "openai small_config = Some \<lparr>apiKey = ''k'', baseUrl = None, model = Some ''gpt-3.5-turbo''\<rparr>"
  by (simp add: small_config_def)

lemma upt_2: "[0..<2] = [0, Suc 0]"
  by (simp add: numeral_2_eq_2)

lemma chunks_example:
  "chunks_of 16384 (replicate 16385 (CHR ''a'')) = [replicate 16384 (CHR ''a''), [CHR ''a'']]"
proof -
  have "(length (replicate 16385 (CHR ''a'')) + 16384 - 1) div 16384 = (2::nat)" by simp
  then show ?thesis unfolding chunks_of_def by (simp add: upt_2)
qed

lemma est_replicate: "0 < n \<Longrightarrow> estimateTokenCount (replicate n c) = (n + 3) div 4"
  by (simp add: estimateTokenCount_def)

theorem halving_summarizer_result_witness:
  "openai small_config
     = Some \<lparr>apiKey = ''k'', baseUrl = None, model = Some ''gpt-3.5-turbo''\<rparr>
   \<and> summarizeDocumentForContext halving_summarizer (replicate 16385 (CHR ''a'')) 2048 small_config
     = Some (replicate 4097 (CHR ''a''),
             [Report (Analyzing 4), Report (Splitting 2),
              Report (SummarizingChunk 1 2), LlmCall (replicate 16384 (CHR ''a'')) 409 909,
              Report (SummarizingChunk 2 2), LlmCall [CHR ''a''] 409 909,
              Report AdditionalPass,
              Report (Analyzing 2), Report SummarizingDocument,
              LlmCall (replicate 8192 (CHR ''a'') @ [CHR 0x0A, CHR 0x0A]) 2048 2548])"
proof -
  let ?a = "CHR ''a''"
  let ?T = "replicate 16385 ?a"
  let ?C = "replicate 8192 ?a @ [CHR 0x0A, CHR 0x0A]"
  have eT: "estimateTokenCount ?T = 4097" by (simp add: est_replicate)
  have eC: "estimateTokenCount ?C = 2049" by (simp add: estimateTokenCount_def)
  have comb: "join [CHR 0x0A, CHR 0x0A]
      (map (\<lambda>c. take (length c div 2) c) (chunks_of (getContextLimit small_config div 4 * 4) ?T)) = ?C"
    by (simp add: small_limit chunks_example)
  from halving_summarizer_result[OF small_openai, of ?T 2048]
  obtain summary evs where
    res: "summarizeDocumentForContext halving_summarizer ?T 2048 small_config = Some (summary, evs)"
    and ch: "2048 < estimateTokenCount ?T
           \<and> getContextLimit small_config div 4 \<le> estimateTokenCount ?T \<longrightarrow>
           (let chunks = chunks_of (getContextLimit small_config div 4 * 4) ?T;
                t = min (getContextLimit small_config div 4 div 10) (2048 div length chunks);
                combined = join [CHR 0x0A, CHR 0x0A] (map (\<lambda>c. take (length c div 2) c) chunks);
                pre = Report (Analyzing ((estimateTokenCount ?T + 500) div 1000))
                      # Report (Splitting (length chunks))
                      # concat (map (\<lambda>(j, c). [Report (SummarizingChunk (Suc j) (length chunks)),
                                                   LlmCall c t (max_tokens t)])
                                 (enumerate 0 chunks))
            in (estimateTokenCount combined \<le> 2048 \<longrightarrow>
                  summary = combined \<and> evs = pre @ [Report Complete])
             \<and> (2048 < estimateTokenCount combined \<longrightarrow>
                  (\<exists>evs'. summarizeDocumentForContext halving_summarizer combined 2048 small_config
                           = Some (summary, evs')
                         \<and> evs = pre @ Report AdditionalPass # evs')))"
    by blast
  have L: "getContextLimit small_config div 4 = 4096" by (simp add: small_limit)
  have ck: "chunks_of (4096 * 4) ?T = [replicate 16384 ?a, [?a]]"
    by (simp add: chunks_example)
  have comb': "join [CHR 0x0A, CHR 0x0A]
      (map (\<lambda>c. take (length c div 2) c) [replicate 16384 ?a, [?a]]) = ?C"
    by simp
  have prem: "2048 < estimateTokenCount ?T
           \<and> getContextLimit small_config div 4 \<le> estimateTokenCount ?T"
    by (simp add: eT L)
  have gt: "2048 < estimateTokenCount ?C" by (simp add: eC)
  note body = ch[rule_format, OF prem, unfolded Let_def L ck comb']
  from conjunct2[OF body, rule_format, OF gt]
  obtain evs' where
    rec: "summarizeDocumentForContext halving_summarizer ?C 2048 small_config = Some (summary, evs')"
    and evs: "evs = [Report (Analyzing 4), Report (Splitting 2),
              Report (SummarizingChunk 1 2), LlmCall (replicate 16384 ?a) 409 909,
              Report (SummarizingChunk 2 2), LlmCall [?a] 409 909,
              Report AdditionalPass] @ evs'"
    by (auto simp: eT max_tokens_def numeral_2_eq_2[symmetric])
  from halving_summarizer_result[OF small_openai, of ?C 2048]
  have inner: "summarizeDocumentForContext halving_summarizer ?C 2048 small_config
     = Some (replicate 4097 ?a,
             [Report (Analyzing 2), Report SummarizingDocument, LlmCall ?C 2048 2548])"
    by (auto simp: eC small_limit max_tokens_def)
  from res rec evs inner show ?thesis
    by (simp add: small_openai)
qed

text \<open>
  Claim C5 as stated fails: a text of 16 characters (4 tokens) with target 1 is below the
  chunk limit, is summarized in one call, and the 8 characters (2 tokens) that the halving
  stub returns are handed back although they exceed the target.
\<close>

theorem halving_summarizer_exceeds_target:
  "summarizeDocumentForContext halving_summarizer ''aaaaaaaaaaaaaaaa'' 1 example_config
     = Some (''aaaaaaaa'',
             [Report (Analyzing 0), Report SummarizingDocument, LlmCall ''aaaaaaaaaaaaaaaa'' 1 501])
   \<and> estimateTokenCount ''aaaaaaaaaaaaaaaa'' = 4
   \<and> estimateTokenCount ''aaaaaaaa'' = 2"
proof -
  have oc: "openai example_config = Some \<lparr>apiKey = ''k'', baseUrl = None, model = Some ''GPT-4o''\<rparr>"
    by (simp add: example_config_def)
  have e: "estimateTokenCount ''aaaaaaaaaaaaaaaa'' = 4" "estimateTokenCount ''aaaaaaaa'' = 2"
    by (simp_all add: estimateTokenCount_def)
  have "summarizeDocumentForContext halving_summarizer ''aaaaaaaaaaaaaaaa'' 1 example_config
     = Some (''aaaaaaaa'',
             [Report (Analyzing 0), Report SummarizingDocument, LlmCall ''aaaaaaaaaaaaaaaa'' 1 501])"
    by (subst sdfc_single)
       (simp_all add: e maxChunkTokens_of_def example_limit halving_single[OF oc] max_tokens_def)
  with e show ?thesis by simp
qed

text \<open>
  A failed call truncates the chunk, and a model whose every call fails still lets the
  routine return a text within the target.
\<close>

lemma failing_calls_truncate:
  "(openai config = None \<or> ask text targetTokens = CallFails \<or> ask text targetTokens = ApiError
      \<longrightarrow> (\<exists>e evs. summarizeSingleChunk_try ask text targetTokens config = (Inl e, evs))
          \<and> fst (summarizeSingleChunk ask text targetTokens config) = take (targetTokens * 4) text)
   \<and> (openai config = None \<or> (\<forall>c t. ask c t = CallFails \<or> ask c t = ApiError)
      \<longrightarrow> (\<exists>summary evs.
            summarizeDocumentForContext ask text targetTokens config = Some (summary, evs)
            \<and> estimateTokenCount summary \<le> targetTokens))"
proof (intro conjI impI)
  assume f: "openai config = None \<or> ask text targetTokens = CallFails \<or> ask text targetTokens = ApiError"
  then show "\<exists>e evs. summarizeSingleChunk_try ask text targetTokens config = (Inl e, evs)"
    by (auto simp: summarizeSingleChunk_try_def split: option.splits)
  from f show "fst (summarizeSingleChunk ask text targetTokens config) = take (targetTokens * 4) text"
    by (auto simp: summarizeSingleChunk_def summarizeSingleChunk_try_def split: option.splits)
next
  assume f: "openai config = None \<or> (\<forall>c t. ask c t = CallFails \<or> ask c t = ApiError)"
  from sdfc_terminates[of targetTokens config ask "text", OF failing_shrinks[OF f]]
  obtain summary evs where
    res: "summarizeDocumentForContext ask text targetTokens config = Some (summary, evs)"
    and post: "estimateTokenCount summary \<le> targetTokens
         \<or> (\<exists>t'. targetTokens < estimateTokenCount t'
               \<and> estimateTokenCount t' < maxChunkTokens_of config
               \<and> summary = fst (summarizeSingleChunk ask t' targetTokens config))"
    by blast
  from post have "estimateTokenCount summary \<le> targetTokens"
    by (auto simp: failing_single[OF f] estimate_le)
  with res show "\<exists>summary evs.
            summarizeDocumentForContext ask text targetTokens config = Some (summary, evs)
            \<and> estimateTokenCount summary \<le> targetTokens"
    by blast
qed

lemma all_fail_chunk_result:
  assumes "openai config = None \<or> (\<forall>c t. ask c t = CallFails \<or> ask c t = ApiError)"
  shows "chunk_result ask config t c = take (t * 4) c"
  using assms by (auto simp: chunk_result_def call_fails_def)

text \<open>
  Claim C8. When the model call for a chunk fails (it throws, the answer carries an API
  error, or the configuration has no \<open>openai\<close> entry to read), the \<open>try\<close> block of
  \<open>summarizeSingleChunk\<close> ends in an exception and the function returns the first
  \<open>targetTokens * 4\<close> characters of the chunk. In the loop over the chunks, whatever the
  model does, each chunk whose call fails contributes its truncation and each other chunk
  the content of its answer. \<open>summarizeDocumentForContext\<close> itself, for any model, returns
  that result in the single-call branch, and in the chunked branch returns or recurses on
  the chunk results joined with blank lines: a failure never ends the routine. With a model
  whose every call fails it returns for every text and target, the result is within the
  target, and it is the text itself, its truncation, or the joined truncations of its
  chunks, summarized again when they exceed the target.
\<close>

theorem llm_failure_truncates:
  "(openai config = None \<or> ask text targetTokens = CallFails \<or> ask text targetTokens = ApiError
      \<longrightarrow> (\<exists>e evs. summarizeSingleChunk_try ask text targetTokens config = (Inl e, evs))
          \<and> fst (summarizeSingleChunk ask text targetTokens config) = take (targetTokens * 4) text)
   \<and> summarize_chunks ask config t n i chunks
       = (map (\<lambda>c. if call_fails ask config c t then take (t * 4) c
                    else completion_text (ask c t)) chunks,
          concat (map (\<lambda>(j, c). Report (SummarizingChunk (Suc j) n) # chunk_events config t c)
                    (enumerate i chunks)))
   \<and> (targetTokens < estimateTokenCount text
        \<and> estimateTokenCount text < getContextLimit config div 4 \<longrightarrow>
        summarizeDocumentForContext ask text targetTokens config
          = Some (if call_fails ask config text targetTokens then take (targetTokens * 4) text
                  else completion_text (ask text targetTokens),
                  Report (Analyzing ((estimateTokenCount text + 500) div 1000))
                  # Report SummarizingDocument # chunk_events config targetTokens text))
   \<and> (targetTokens < estimateTokenCount text
        \<and> getContextLimit config div 4 \<le> estimateTokenCount text \<longrightarrow>
        summarizeDocumentForContext ask text targetTokens config
          = (let chunks = chunks_of (getContextLimit config div 4 * 4) text;
                 t = min (getContextLimit config div 4 div 10) (targetTokens div length chunks);
                 combined = join [CHR 0x0A, CHR 0x0A]
                   (map (\<lambda>c. if call_fails ask config c t then take (t * 4) c
                              else completion_text (ask c t)) chunks);
                 evs = pass_events config (estimateTokenCount text) t chunks
             in if targetTokens < estimateTokenCount combined then
                  map_option (\<lambda>r. (fst r, evs @ Report AdditionalPass # snd r))
                    (summarizeDocumentForContext ask combined targetTokens config)
                else Some (combined, evs @ [Report Complete])))
   \<and> (openai config = None \<or> (\<forall>c t. ask c t = CallFails \<or> ask c t = ApiError)
      \<longrightarrow> (\<exists>summary evs.
            summarizeDocumentForContext ask text targetTokens config = Some (summary, evs)
            \<and> estimateTokenCount summary \<le> targetTokens
            \<and> (estimateTokenCount text \<le> targetTokens \<longrightarrow> summary = text)
            \<and> (targetTokens < estimateTokenCount text
                 \<and> estimateTokenCount text < getContextLimit config div 4 \<longrightarrow>
                 summary = take (targetTokens * 4) text)
            \<and> (targetTokens < estimateTokenCount text
                 \<and> getContextLimit config div 4 \<le> estimateTokenCount text \<longrightarrow>
                 (let chunks = chunks_of (getContextLimit config div 4 * 4) text;
                      t = min (getContextLimit config div 4 div 10)
                            (targetTokens div length chunks);
                      combined = join [CHR 0x0A, CHR 0x0A] (map (take (t * 4)) chunks)
                  in (estimateTokenCount combined \<le> targetTokens \<longrightarrow> summary = combined)
                   \<and> (targetTokens < estimateTokenCount combined \<longrightarrow>
                        (\<exists>evs'. summarizeDocumentForContext ask combined targetTokens config
                                 = Some (summary, evs')))))))"
proof (intro conjI)
  show "openai config = None \<or> ask text targetTokens = CallFails \<or> ask text targetTokens = ApiError
      \<longrightarrow> (\<exists>e evs. summarizeSingleChunk_try ask text targetTokens config = (Inl e, evs))
          \<and> fst (summarizeSingleChunk ask text targetTokens config) = take (targetTokens * 4) text"
    using failing_calls_truncate[of config ask "text" targetTokens] by blast
next
  show "summarize_chunks ask config t n i chunks
       = (map (\<lambda>c. if call_fails ask config c t then take (t * 4) c
                    else completion_text (ask c t)) chunks,
          concat (map (\<lambda>(j, c). Report (SummarizingChunk (Suc j) n) # chunk_events config t c)
                    (enumerate i chunks)))"
    using summarize_chunks_explicit[of ask config t n i chunks]
    by (simp add: chunk_result_def[abs_def])
next
  show "targetTokens < estimateTokenCount text
        \<and> estimateTokenCount text < getContextLimit config div 4 \<longrightarrow>
        summarizeDocumentForContext ask text targetTokens config
          = Some (if call_fails ask config text targetTokens then take (targetTokens * 4) text
                  else completion_text (ask text targetTokens),
                  Report (Analyzing ((estimateTokenCount text + 500) div 1000))
                  # Report SummarizingDocument # chunk_events config targetTokens text)"
    using sdfc_single_step[of "text" targetTokens config ask]
    by (simp add: chunk_result_def)
next
  show "targetTokens < estimateTokenCount text
        \<and> getContextLimit config div 4 \<le> estimateTokenCount text \<longrightarrow>
        summarizeDocumentForContext ask text targetTokens config
          = (let chunks = chunks_of (getContextLimit config div 4 * 4) text;
                 t = min (getContextLimit config div 4 div 10) (targetTokens div length chunks);
                 combined = join [CHR 0x0A, CHR 0x0A]
                   (map (\<lambda>c. if call_fails ask config c t then take (t * 4) c
                              else completion_text (ask c t)) chunks);
                 evs = pass_events config (estimateTokenCount text) t chunks
             in if targetTokens < estimateTokenCount combined then
                  map_option (\<lambda>r. (fst r, evs @ Report AdditionalPass # snd r))
                    (summarizeDocumentForContext ask combined targetTokens config)
                else Some (combined, evs @ [Report Complete]))"
    using sdfc_step[of "text" targetTokens config ask]
    by (simp add: chunk_result_def[abs_def] Let_def)
next
  show "openai config = None \<or> (\<forall>c t. ask c t = CallFails \<or> ask c t = ApiError)
      \<longrightarrow> (\<exists>summary evs.
            summarizeDocumentForContext ask text targetTokens config = Some (summary, evs)
            \<and> estimateTokenCount summary \<le> targetTokens
            \<and> (estimateTokenCount text \<le> targetTokens \<longrightarrow> summary = text)
            \<and> (targetTokens < estimateTokenCount text
                 \<and> estimateTokenCount text < getContextLimit config div 4 \<longrightarrow>
                 summary = take (targetTokens * 4) text)
            \<and> (targetTokens < estimateTokenCount text
                 \<and> getContextLimit config div 4 \<le> estimateTokenCount text \<longrightarrow>
                 (let chunks = chunks_of (getContextLimit config div 4 * 4) text;
                      t = min (getContextLimit config div 4 div 10)
                            (targetTokens div length chunks);
                      combined = join [CHR 0x0A, CHR 0x0A] (map (take (t * 4)) chunks)
                  in (estimateTokenCount combined \<le> targetTokens \<longrightarrow> summary = combined)
                   \<and> (targetTokens < estimateTokenCount combined \<longrightarrow>
                        (\<exists>evs'. summarizeDocumentForContext ask combined targetTokens config
                                 = Some (summary, evs'))))))"
  proof
    assume f: "openai config = None \<or> (\<forall>c t. ask c t = CallFails \<or> ask c t = ApiError)"
    from failing_calls_truncate[of config ask "text" targetTokens] f
    obtain summary evs where
      res: "summarizeDocumentForContext ask text targetTokens config = Some (summary, evs)"
      and est: "estimateTokenCount summary \<le> targetTokens"
      by blast
    have cr: "chunk_result ask config = (\<lambda>t c. take (t * 4) c)"
      by (intro ext) (rule all_fail_chunk_result[OF f])
    have fits: "estimateTokenCount text \<le> targetTokens \<longrightarrow> summary = text"
      using res by (auto simp: sdfc_fits)
    have single: "targetTokens < estimateTokenCount text
                 \<and> estimateTokenCount text < getContextLimit config div 4 \<longrightarrow>
                 summary = take (targetTokens * 4) text"
      using sdfc_single_step[of "text" targetTokens config ask] res by (auto simp: cr)
    have chunked: "targetTokens < estimateTokenCount text
                 \<and> getContextLimit config div 4 \<le> estimateTokenCount text \<longrightarrow>
                 (let chunks = chunks_of (getContextLimit config div 4 * 4) text;
                      t = min (getContextLimit config div 4 div 10)
                            (targetTokens div length chunks);
                      combined = join [CHR 0x0A, CHR 0x0A] (map (take (t * 4)) chunks)
                  in (estimateTokenCount combined \<le> targetTokens \<longrightarrow> summary = combined)
                   \<and> (targetTokens < estimateTokenCount combined \<longrightarrow>
                        (\<exists>evs'. summarizeDocumentForContext ask combined targetTokens config
                                 = Some (summary, evs'))))"
    proof
      assume a: "targetTokens < estimateTokenCount text
                 \<and> getContextLimit config div 4 \<le> estimateTokenCount text"
      then have n1: "\<not> estimateTokenCount text \<le> targetTokens"
        and n2: "\<not> estimateTokenCount text < getContextLimit config div 4" by simp_all
      define chunks where "chunks = chunks_of (getContextLimit config div 4 * 4) text"
      define t where "t = min (getContextLimit config div 4 div 10) (targetTokens div length chunks)"
      define combined where "combined = join [CHR 0x0A, CHR 0x0A] (map (take (t * 4)) chunks)"
      have eq: "summarizeDocumentForContext ask text targetTokens config
          = (if targetTokens < estimateTokenCount combined then
               map_option (\<lambda>r. (fst r, pass_events config (estimateTokenCount text) t chunks
                                        @ Report AdditionalPass # snd r))
                 (summarizeDocumentForContext ask combined targetTokens config)
             else Some (combined, pass_events config (estimateTokenCount text) t chunks
                                  @ [Report Complete]))"
        using sdfc_step[OF n1 n2, of ask]
        by (simp add: Let_def cr chunks_def t_def combined_def)
      have c1: "estimateTokenCount combined \<le> targetTokens \<longrightarrow> summary = combined"
        using eq res by auto
      have c2: "targetTokens < estimateTokenCount combined \<longrightarrow>
                (\<exists>evs'. summarizeDocumentForContext ask combined targetTokens config
                         = Some (summary, evs'))"
        using eq res by (auto simp: map_option_case split: option.splits)
      from c1 c2 show "(let chunks = chunks_of (getContextLimit config div 4 * 4) text;
                      t = min (getContextLimit config div 4 div 10)
                            (targetTokens div length chunks);
                      combined = join [CHR 0x0A, CHR 0x0A] (map (take (t * 4)) chunks)
                  in (estimateTokenCount combined \<le> targetTokens \<longrightarrow> summary = combined)
                   \<and> (targetTokens < estimateTokenCount combined \<longrightarrow>
                        (\<exists>evs'. summarizeDocumentForContext ask combined targetTokens config
                                 = Some (summary, evs'))))"
        unfolding Let_def chunks_def t_def combined_def by (rule conjI)
    qed
    from res est fits single chunked
    show "\<exists>summary evs.
            summarizeDocumentForContext ask text targetTokens config = Some (summary, evs)
            \<and> estimateTokenCount summary \<le> targetTokens
            \<and> (estimateTokenCount text \<le> targetTokens \<longrightarrow> summary = text)
            \<and> (targetTokens < estimateTokenCount text
                 \<and> estimateTokenCount text < getContextLimit config div 4 \<longrightarrow>
                 summary = take (targetTokens * 4) text)
            \<and> (targetTokens < estimateTokenCount text
                 \<and> getContextLimit config div 4 \<le> estimateTokenCount text \<longrightarrow>
                 (let chunks = chunks_of (getContextLimit config div 4 * 4) text;
                      t = min (getContextLimit config div 4 div 10)
                            (targetTokens div length chunks);
                      combined = join [CHR 0x0A, CHR 0x0A] (map (take (t * 4)) chunks)
                  in (estimateTokenCount combined \<le> targetTokens \<longrightarrow> summary = combined)
                   \<and> (targetTokens < estimateTokenCount combined \<longrightarrow>
                        (\<exists>evs'. summarizeDocumentForContext ask combined targetTokens config
                                 = Some (summary, evs')))))"
      by blast
  qed
qed

theorem llm_failure_truncates_witness:
  "fst (summarizeSingleChunk (\<lambda>c t. CallFails) ''abcdefghijkl'' 2 example_config) = ''abcdefgh''
   \<and> summarizeDocumentForContext fails_on_full_chunks (replicate 16385 (CHR ''a'')) 1000 small_config
     = Some (replicate 1636 (CHR ''a'') @ [CHR 0x0A, CHR 0x0A] @ ''ok'',
             [Report (Analyzing 4), Report (Splitting 2),
              Report (SummarizingChunk 1 2), LlmCall (replicate 16384 (CHR ''a'')) 409 909,
              Report (SummarizingChunk 2 2), LlmCall [CHR ''a''] 409 909,
              Report Complete])
   \<and> (\<exists>evs. summarizeDocumentForContext (\<lambda>c t. ApiError) (replicate 16385 (CHR ''a'')) 1000
               small_config
             = Some (replicate 1636 (CHR ''a'') @ [CHR 0x0A, CHR 0x0A, CHR ''a''], evs))"
proof -
  let ?a = "CHR ''a''"
  let ?T = "replicate 16385 ?a"
  have eT: "estimateTokenCount ?T = 4097" by (simp add: est_replicate)
  have L: "getContextLimit small_config div 4 = 4096" by (simp add: small_limit)
  have ck: "chunks_of (4096 * 4) ?T = [replicate 16384 ?a, [?a]]"
    by (simp add: chunks_example)
  have prem: "1000 < estimateTokenCount ?T
           \<and> getContextLimit small_config div 4 \<le> estimateTokenCount ?T"
    by (simp add: eT L)
  have single: "fst (summarizeSingleChunk (\<lambda>c t. CallFails) ''abcdefghijkl'' 2 example_config)
      = ''abcdefgh''"
    using llm_failure_truncates[of example_config "\<lambda>c t. CallFails" "''abcdefghijkl''" 2]
    by simp
  have t: "min (4096 div 10) (1000 div length [replicate 16384 ?a, [?a]]) = 409"
    by (simp add: numeral_2_eq_2[symmetric])
  note D = llm_failure_truncates[of small_config fails_on_full_chunks ?T 1000,
      THEN conjunct2, THEN conjunct2, THEN conjunct2, THEN conjunct1, rule_format, OF prem,
      unfolded Let_def L ck t]
  have partial: "summarizeDocumentForContext fails_on_full_chunks ?T 1000 small_config
     = Some (replicate 1636 ?a @ [CHR 0x0A, CHR 0x0A] @ ''ok'',
             [Report (Analyzing 4), Report (Splitting 2),
              Report (SummarizingChunk 1 2), LlmCall (replicate 16384 ?a) 409 909,
              Report (SummarizingChunk 2 2), LlmCall [?a] 409 909,
              Report Complete])"
    unfolding D
    by (simp add: call_fails_def fails_on_full_chunks_def small_openai completion_text_def
        estimateTokenCount_def pass_events_def chunk_events_def max_tokens_def eT
        numeral_2_eq_2[symmetric])
  have allfail: "openai small_config = None
      \<or> (\<forall>c t. (\<lambda>c t. ApiError) c t = CallFails \<or> (\<lambda>c t. ApiError) c t = ApiError)"
    by simp
  note E = llm_failure_truncates[of small_config "\<lambda>c t. ApiError" ?T 1000,
      THEN conjunct2, THEN conjunct2, THEN conjunct2, THEN conjunct2, rule_format, OF allfail]
  from E obtain summary evs where
    res: "summarizeDocumentForContext (\<lambda>c t. ApiError) ?T 1000 small_config = Some (summary, evs)"
    and ch: "1000 < estimateTokenCount ?T
                 \<and> getContextLimit small_config div 4 \<le> estimateTokenCount ?T \<longrightarrow>
                 (let chunks = chunks_of (getContextLimit small_config div 4 * 4) ?T;
                      t = min (getContextLimit small_config div 4 div 10)
                            (1000 div length chunks);
                      combined = join [CHR 0x0A, CHR 0x0A] (map (take (t * 4)) chunks)
                  in (estimateTokenCount combined \<le> 1000 \<longrightarrow> summary = combined)
                   \<and> (1000 < estimateTokenCount combined \<longrightarrow>
                        (\<exists>evs'. summarizeDocumentForContext (\<lambda>c t. ApiError) combined 1000 small_config
                                 = Some (summary, evs'))))"
    by blast
  note body = ch[rule_format, OF prem, unfolded Let_def L ck t]
  have "summary = replicate 1636 ?a @ [CHR 0x0A, CHR 0x0A, ?a]"
    using conjunct1[OF body] by (simp add: estimateTokenCount_def)
  with res have total: "\<exists>evs. summarizeDocumentForContext (\<lambda>c t. ApiError) ?T 1000 small_config
             = Some (replicate 1636 ?a @ [CHR 0x0A, CHR 0x0A, ?a], evs)"
    by blast
  from single partial total show ?thesis by blast
qed

section \<open>Properties of the backup restore\<close>

text \<open>
  Claim C6. When the chosen file parses to a value without a \<open>backendData\<close> field, the
  restore stops at the validation: the only effects are the confirmation dialog and the
  status updates, ending in the error \<open>Invalid backup format: missing backend data\<close>
  (for the value \<open>null\<close> the property read itself throws, with the same outcome but
  another message). No \<open>localStorage\<close> key is written or removed and no request is sent.
\<close>

theorem restore_rejects_missing_backendData:
  assumes "picked env = Readable content_text" and "confirmed env"
    and "JSON_parse rt content_text = Some backup" and "field_of backup ''backendData'' = None"
  shows "(backup \<noteq> JNull \<longrightarrow>
           handleFileChange rt env =
             [Confirm, SetIsImporting True, SetStatus [] [],
              SetStatus ''error''
                ''Failed to restore backup: Invalid backup format: missing backend data'',
              SetIsImporting False, ClearInput])
       \<and> storage_after ls (handleFileChange rt env) = ls
       \<and> requests_sent (handleFileChange rt env) = []"
  using assms
  by (simp add: handleFileChange_def restore_try_def truthy_value_def storage_after_def)

theorem restore_rejects_missing_backendData_witness:
  "handleFileChange example_runtime
     \<lparr>picked = Readable ''{}'', confirmed = True, post_answer = NetworkError,
      now_ms = 0, now_iso = ''''\<rparr>
   = [Confirm, SetIsImporting True, SetStatus [] [],
      SetStatus ''error''
        ''Failed to restore backup: Invalid backup format: missing backend data'',
      SetIsImporting False, ClearInput]"
  using restore_rejects_missing_backendData[of
      "\<lparr>picked = Readable ''{}'', confirmed = True, post_answer = NetworkError,
        now_ms = 0, now_iso = ''''\<rparr>" "''{}''"
      example_runtime "JObj []"]
  by (simp add: example_runtime_def parse_examples_def field_of_def)

text \<open>For comparison, a restore that goes through.\<close>

lemma restore_success_example:
  "handleFileChange (example_runtime\<lparr>JSON_parse := (\<lambda>s. Some (JObj [(''backendData'', JObj []), (''settings'', JObj [(''aiConfig'', JStr ''cfg'')])]))\<rparr>)
     \<lparr>picked = Readable ''x'', confirmed = True, post_answer = HttpResponse 200 None,
      now_ms = 0, now_iso = ''''\<rparr>
   = [Confirm, SetIsImporting True, SetStatus [] [], SetItem ''quickstor_ai_config'' ''cfg'',
      Post ''http://localhost:3000/api/data'' ''{}'',
      RemoveItem ''quickstor_pages'', RemoveItem ''quickstor_navbar'', RemoveItem ''quickstor_footer'',
      RemoveItem ''quickstor_activeTheme'', RemoveItem ''quickstor_savedThemes'', RemoveItem ''quickstor_custom_sections'',
      SetStatus ''success'' ''System restored successfully! Reloading...'', ScheduleReload 1000,
      SetIsImporting False, ClearInput]"
  by (simp add: handleFileChange_def restore_try_def truthy_value_def restore_settings_def
      set_if_truthy_def field_of_def stagingStateToRestore_def spread_def response_ok_def
      contentKeys_def example_runtime_def Let_def)

end
